theory Spec2Isabelle
  imports Complex_Main "HOL-Library.AList"
begin

section \<open>Python values seen by \<open>validate_receipt\<close>\<close>

text \<open>
  The validator of \<^verbatim>\<open>src/validation_ui.py\<close> receives a dictionary whose values are
  arbitrary Python objects. It applies three operations to them: the test \<^verbatim>\<open>is None\<close>,
  the builtin \<^verbatim>\<open>str\<close> (on the date) and the builtin \<^verbatim>\<open>float\<close> (on amount and tax).
  Exceptions are values of \<open>pyexn\<close>; a computation that may raise returns
  \<open>pyexn + 'a\<close>, with \<open>Inl\<close> for the exception.
\<close>

datatype pyexn = ValueError | TypeError | OverflowError | ZeroDivisionError | OtherError

subsection \<open>Floats: IEEE 754 binary64, round to nearest, ties to even\<close>

text \<open>
  A finite float is the real number it denotes. The two zeros are one value: the
  validator only compares, subtracts and divides by positive numbers, and it never
  prints a zero, so the sign of a zero is not observable in a report.
\<close>

datatype pyfloat = Fin real | PInf | NInf | NaN

function ilog2 :: "int \<Rightarrow> int" where
  "ilog2 n = (if n < 2 then 0 else 1 + ilog2 (n div 2))"
  by auto
termination
  by (relation "measure nat") auto

declare ilog2.simps [simp del]

definition pow2 :: "int \<Rightarrow> real" where
  "pow2 e = (if 0 \<le> e then 2 ^ nat e else 1 / 2 ^ nat (- e))"

definition flog2 :: "real \<Rightarrow> int" where
  \<comment> \<open>\<open>\<lfloor>log\<^sub>2 q\<rfloor>\<close> for \<open>q > 0\<close>\<close>
  "flog2 q = (if 1 \<le> q then ilog2 \<lfloor>q\<rfloor> else - (ilog2 (\<lceil>1 / q\<rceil> - 1) + 1))"

definition round_half_even :: "real \<Rightarrow> int" where
  "round_half_even q =
     (let f = \<lfloor>q\<rfloor>; r = q - of_int f
      in if r < 1 / 2 then f
         else if 1 / 2 < r then f + 1
         else if even f then f else f + 1)"

definition round_double :: "real \<Rightarrow> pyfloat" where
  \<comment> \<open>53 bits of precision, exponents of the unit in the last place from -1074 to 971;
      a result of magnitude \<open>2^1024\<close> or more is an infinity\<close>
  "round_double q =
     (if q = 0 then Fin 0
      else if 2 ^ 1024 \<le> q then PInf
      else if q \<le> - (2 ^ 1024) then NInf
      else
        let e = max (flog2 \<bar>q\<bar> - 52) (- 1074);
            v = of_int (round_half_even (q / pow2 e)) * pow2 e
        in if 2 ^ 1024 \<le> v then PInf
           else if v \<le> - (2 ^ 1024) then NInf
           else Fin v)"

fun fabs :: "pyfloat \<Rightarrow> pyfloat" where
  "fabs (Fin x) = Fin \<bar>x\<bar>"
| "fabs PInf = PInf"
| "fabs NInf = PInf"
| "fabs NaN = NaN"

fun fsub :: "pyfloat \<Rightarrow> pyfloat \<Rightarrow> pyfloat" where
  "fsub (Fin x) (Fin y) = round_double (x - y)"
| "fsub NaN y = NaN"
| "fsub x NaN = NaN"
| "fsub PInf PInf = NaN"
| "fsub NInf NInf = NaN"
| "fsub PInf y = PInf"
| "fsub NInf y = NInf"
| "fsub x PInf = NInf"
| "fsub x NInf = PInf"

fun fmul :: "pyfloat \<Rightarrow> pyfloat \<Rightarrow> pyfloat" where
  "fmul (Fin x) (Fin y) = round_double (x * y)"
| "fmul NaN y = NaN"
| "fmul x NaN = NaN"
| "fmul (Fin x) PInf = (if x = 0 then NaN else if 0 < x then PInf else NInf)"
| "fmul (Fin x) NInf = (if x = 0 then NaN else if 0 < x then NInf else PInf)"
| "fmul PInf (Fin y) = (if y = 0 then NaN else if 0 < y then PInf else NInf)"
| "fmul NInf (Fin y) = (if y = 0 then NaN else if 0 < y then NInf else PInf)"
| "fmul PInf PInf = PInf"
| "fmul NInf NInf = PInf"
| "fmul PInf NInf = NInf"
| "fmul NInf PInf = NInf"

text \<open>Python's \<^verbatim>\<open>/\<close> on floats raises \<^verbatim>\<open>ZeroDivisionError\<close> on a zero divisor.\<close>

fun fdiv :: "pyfloat \<Rightarrow> pyfloat \<Rightarrow> pyexn + pyfloat" where
  "fdiv x (Fin y) =
     (if y = 0 then Inl ZeroDivisionError
      else case x of
        Fin a \<Rightarrow> Inr (round_double (a / y))
      | PInf \<Rightarrow> Inr (if 0 < y then PInf else NInf)
      | NInf \<Rightarrow> Inr (if 0 < y then NInf else PInf)
      | NaN \<Rightarrow> Inr NaN)"
| "fdiv NaN y = Inr NaN"
| "fdiv x NaN = Inr NaN"
| "fdiv (Fin a) y = Inr (Fin 0)"
| "fdiv x y = Inr NaN"

fun fle :: "pyfloat \<Rightarrow> pyfloat \<Rightarrow> bool" where
  "fle NaN y = False"
| "fle x NaN = False"
| "fle (Fin x) (Fin y) = (x \<le> y)"
| "fle NInf y = True"
| "fle x PInf = True"
| "fle x y = False"

fun flt :: "pyfloat \<Rightarrow> pyfloat \<Rightarrow> bool" where
  "flt NaN y = False"
| "flt x NaN = False"
| "flt (Fin x) (Fin y) = (x < y)"
| "flt PInf y = False"
| "flt x NInf = False"
| "flt x y = True"

fun feq :: "pyfloat \<Rightarrow> pyfloat \<Rightarrow> bool" where
  "feq NaN y = False"
| "feq x NaN = False"
| "feq x y = (x = y)"

subsection \<open>Text\<close>

text \<open>
  A Python \<^verbatim>\<open>str\<close> is a \<open>string\<close> whose characters are the code points below 256.
  In that range the decimal digits are \<^verbatim>\<open>0\<close> to \<^verbatim>\<open>9\<close>, and the characters that
  \<^verbatim>\<open>float\<close> strips as white space are 9 to 13, 32, 133 and 160.
\<close>

definition is_digit :: "char \<Rightarrow> bool" where
  "is_digit c = (c \<in> set ''0123456789'')"

definition digit_val :: "char \<Rightarrow> nat" where
  "digit_val c = of_char c - 48"

definition parse_digits :: "string \<Rightarrow> nat" where
  "parse_digits ds = foldl (\<lambda>n c. 10 * n + digit_val c) 0 ds"

definition is_space :: "char \<Rightarrow> bool" where
  "is_space c = ((of_char c :: nat) \<in> {9, 10, 11, 12, 13, 32, 133, 160})"

definition strip_space :: "string \<Rightarrow> string" where
  "strip_space s = rev (dropWhile is_space (rev (dropWhile is_space s)))"

definition lower :: "char \<Rightarrow> char" where
  "lower c = (if 65 \<le> (of_char c :: nat) \<and> (of_char c :: nat) \<le> 90
              then char_of (of_char c + (32 :: nat)) else c)"

fun str_nat :: "nat \<Rightarrow> string" where
  "str_nat n =
     (if n < 10 then [char_of (48 + n)]
      else str_nat (n div 10) @ [char_of (48 + n mod 10)])"

declare str_nat.simps [simp del]

definition str_int :: "int \<Rightarrow> string" where
  "str_int n = (if n < 0 then CHR ''-'' # str_nat (nat (- n)) else str_nat (nat n))"

subsection \<open>The builtin \<^verbatim>\<open>float\<close> on a string\<close>

text \<open>
  \<^verbatim>\<open>float(s)\<close> accepts, between optional white space, an optional sign followed by
  \<^verbatim>\<open>inf\<close>, \<^verbatim>\<open>infinity\<close> or \<^verbatim>\<open>nan\<close> in any letter case, or by a decimal number with an
  optional exponent. An underscore is allowed between two digits. The value is the
  nearest float; a number too large is an infinity, not an error. Anything else raises
  \<^verbatim>\<open>ValueError\<close>.
\<close>

fun underscores_ok :: "char \<Rightarrow> string \<Rightarrow> bool" where
  "underscores_ok prev [] = (prev \<noteq> CHR ''_'')"
| "underscores_ok prev (c # cs) =
     ((if c = CHR ''_'' then is_digit prev else (prev = CHR ''_'' \<longrightarrow> is_digit c))
      \<and> underscores_ok c cs)"

definition pow10 :: "int \<Rightarrow> real" where
  "pow10 e = (if 0 \<le> e then 10 ^ nat e else 1 / 10 ^ nat (- e))"

definition split_sign :: "string \<Rightarrow> bool \<times> string" where
  "split_sign s =
     (case s of
        [] \<Rightarrow> (False, [])
      | c # r \<Rightarrow> if c = CHR ''-'' then (True, r)
                 else if c = CHR ''+'' then (False, r) else (False, s))"

definition parse_exponent :: "string \<Rightarrow> int option" where
  "parse_exponent s =
     (case s of
        [] \<Rightarrow> Some 0
      | c # r \<Rightarrow>
          if c = CHR ''e'' \<or> c = CHR ''E'' then
            (let (neg, ds) = split_sign r
             in if ds \<noteq> [] \<and> list_all is_digit ds
                then Some (if neg then - int (parse_digits ds) else int (parse_digits ds))
                else None)
          else None)"

definition parse_number :: "string \<Rightarrow> real option" where
  "parse_number s =
     (let ip = takeWhile is_digit s;
          r1 = dropWhile is_digit s;
          (fp, r2) = (case r1 of
                        [] \<Rightarrow> ([], [])
                      | c # r \<Rightarrow> if c = CHR ''.''
                                 then (takeWhile is_digit r, dropWhile is_digit r)
                                 else ([], r1))
      in if ip = [] \<and> fp = [] then None
         else case parse_exponent r2 of
                None \<Rightarrow> None
              | Some ex \<Rightarrow> Some (real (parse_digits (ip @ fp)) * pow10 (ex - int (length fp))))"

definition float_of_str :: "string \<Rightarrow> pyexn + pyfloat" where
  "float_of_str s0 =
     (if \<not> underscores_ok (CHR 0x00) s0 then Inl ValueError
      else
        let (neg, body) = split_sign (strip_space (filter (\<lambda>c. c \<noteq> CHR ''_'') s0));
            low = map lower body
        in if low = ''inf'' \<or> low = ''infinity'' then Inr (if neg then NInf else PInf)
           else if low = ''nan'' then Inr NaN
           else case parse_number body of
                  None \<Rightarrow> Inl ValueError
                | Some v \<Rightarrow> Inr (round_double (if neg then - v else v)))"

subsection \<open>\<^verbatim>\<open>datetime.strptime(s, "%Y-%m-%d")\<close>\<close>

text \<open>
  The library turns the format into the regular expression
  \<^verbatim>\<open>(?P<Y>\d\d\d\d)-(?P<m>1[0-2]|0[1-9]|[1-9])-(?P<d>3[0-1]|[1-2]\d|0[1-9]|[1-9]| [1-9])\<close>,
  matches it at the start of the text, raises \<^verbatim>\<open>ValueError\<close> when there is no match or
  when text remains after the match, and then builds the date, which raises
  \<^verbatim>\<open>ValueError\<close> for the year 0 and for a day the month does not have. Each group
  below lists its matches in the order the alternatives are tried: the number read and
  the rest of the text.
\<close>

definition one_char :: "(char \<Rightarrow> bool) \<Rightarrow> string \<Rightarrow> (string \<times> string) list" where
  "one_char p s = (case s of c # r \<Rightarrow> if p c then [([c], r)] else [] | _ \<Rightarrow> [])"

definition two_chars ::
  "(char \<Rightarrow> bool) \<Rightarrow> (char \<Rightarrow> bool) \<Rightarrow> string \<Rightarrow> (string \<times> string) list" where
  "two_chars p1 p2 s =
     (case s of c1 # c2 # r \<Rightarrow> if p1 c1 \<and> p2 c2 then [([c1, c2], r)] else [] | _ \<Rightarrow> [])"

definition re_Y :: "string \<Rightarrow> (string \<times> string) list" where
  "re_Y s =
     (case s of
        a # b # c # d # r \<Rightarrow>
          if is_digit a \<and> is_digit b \<and> is_digit c \<and> is_digit d then [([a, b, c, d], r)] else []
      | _ \<Rightarrow> [])"

definition re_m :: "string \<Rightarrow> (string \<times> string) list" where
  "re_m s =
     two_chars (\<lambda>c. c = CHR ''1'') (\<lambda>c. c \<in> set ''012'') s
     @ two_chars (\<lambda>c. c = CHR ''0'') (\<lambda>c. c \<in> set ''123456789'') s
     @ one_char (\<lambda>c. c \<in> set ''123456789'') s"

definition re_d :: "string \<Rightarrow> (string \<times> string) list" where
  "re_d s =
     two_chars (\<lambda>c. c = CHR ''3'') (\<lambda>c. c \<in> set ''01'') s
     @ two_chars (\<lambda>c. c \<in> set ''12'') is_digit s
     @ two_chars (\<lambda>c. c = CHR ''0'') (\<lambda>c. c \<in> set ''123456789'') s
     @ one_char (\<lambda>c. c \<in> set ''123456789'') s
     @ two_chars (\<lambda>c. c = CHR '' '') (\<lambda>c. c \<in> set ''123456789'') s"

definition day_first :: "string \<Rightarrow> (string \<times> string) option" where
  \<comment> \<open>the match of the day group that the regular expression tries first\<close>
  "day_first r4 = (case re_d r4 of [] \<Rightarrow> None | x # _ \<Rightarrow> Some x)"

definition re_dash :: "string \<Rightarrow> string list" where
  "re_dash s = (case s of c # r \<Rightarrow> if c = CHR ''-'' then [r] else [] | _ \<Rightarrow> [])"

definition to_int :: "string \<Rightarrow> nat" where
  \<comment> \<open>\<^verbatim>\<open>int\<close> of a group: digits, after a possible leading space\<close>
  "to_int s = parse_digits (filter is_digit s)"

definition is_leap :: "nat \<Rightarrow> bool" where
  "is_leap y = (y mod 4 = 0 \<and> (y mod 100 \<noteq> 0 \<or> y mod 400 = 0))"

definition days_in_month :: "nat \<Rightarrow> nat \<Rightarrow> nat" where
  "days_in_month y m =
     (if m = 2 then (if is_leap y then 29 else 28)
      else if m \<in> {4, 6, 9, 11} then 30 else 31)"

definition re_Y_dash :: "string \<Rightarrow> (string \<times> string) list" where
  \<comment> \<open>the year group and the \<^verbatim>\<open>-\<close> after it\<close>
  "re_Y_dash s = [(y, r2). (y, r1) \<leftarrow> re_Y s, r2 \<leftarrow> re_dash r1]"

definition re_m_dash :: "string \<Rightarrow> (string \<times> string) list" where
  \<comment> \<open>the month group and the \<^verbatim>\<open>-\<close> after it\<close>
  "re_m_dash s = [(m, r4). (m, r3) \<leftarrow> re_m s, r4 \<leftarrow> re_dash r3]"

definition strptime_ymd :: "string \<Rightarrow> pyexn + nat \<times> nat \<times> nat" where
  "strptime_ymd s =
     (case [(to_int y, to_int m, to_int d, r).
              (y, r2) \<leftarrow> re_Y_dash s, (m, r4) \<leftarrow> re_m_dash r2, (d, r) \<leftarrow> re_d r4] of
        [] \<Rightarrow> Inl ValueError
      | (y, m, d, r) # _ \<Rightarrow>
          if r \<noteq> [] then Inl ValueError
          else if y < 1 \<or> days_in_month y m < d then Inl ValueError
          else Inr (y, m, d))"

subsection \<open>Values of the input dictionary\<close>

text \<open>
  \<open>PObj s f\<close> is an object of any other type (a float, a list, a dictionary, bytes, a
  date, a decimal), given by what the validator can see of it: \<open>s\<close> is what \<^verbatim>\<open>str\<close>
  gives for it and \<open>f\<close> what \<^verbatim>\<open>float\<close> gives, each a result or the exception raised.
  \<open>PFloat t x\<close> is the float \<open>x\<close> that Python prints as \<open>t\<close>.
\<close>

datatype pyval =
    PNone
  | PBool bool
  | PInt int
  | PStr string
  | PObj "pyexn + string" "pyexn + pyfloat"

definition PFloat :: "string \<Rightarrow> pyfloat \<Rightarrow> pyval" where
  "PFloat t x = PObj (Inr t) (Inr x)"

fun py_float :: "pyval \<Rightarrow> pyexn + pyfloat" where
  "py_float PNone = Inl TypeError"
| "py_float (PBool b) = Inr (Fin (if b then 1 else 0))"
| "py_float (PInt n) =
     (case round_double (of_int n) of
        PInf \<Rightarrow> Inl OverflowError
      | NInf \<Rightarrow> Inl OverflowError
      | x \<Rightarrow> Inr x)"
| "py_float (PStr s) = float_of_str s"
| "py_float (PObj s f) = f"

text \<open>\<^verbatim>\<open>str\<close> of an integer of more than 4300 digits raises \<^verbatim>\<open>ValueError\<close>.\<close>

definition int_max_str_digits :: nat where
  "int_max_str_digits = 4300"

fun py_str :: "pyval \<Rightarrow> pyexn + string" where
  "py_str PNone = Inr ''None''"
| "py_str (PBool b) = Inr (if b then ''True'' else ''False'')"
| "py_str (PInt n) =
     (if 10 ^ int_max_str_digits \<le> \<bar>n\<bar> then Inl ValueError else Inr (str_int n))"
| "py_str (PStr s) = Inr s"
| "py_str (PObj s f) = s"

section \<open>The validator\<close>

text \<open>
  A message built by an f-string that formats a float is kept as the template with its
  arguments: \<open>Rupees x\<close> is \<^verbatim>\<open>f"Rs{x:.2f}"\<close> (with the rupee sign),
  \<open>TaxRateOK p s\<close> is \<^verbatim>\<open>f"Tax rate OK ({p:.2f}%, Subtotal Rs{s:.2f})"\<close> and
  \<open>TaxMismatch p t a\<close> is
  \<^verbatim>\<open>f"Tax mismatch. Expected ~{p:.1f}% but got Rs{t:.2f} on amount Rs{a:.2f}"\<close>.
\<close>

datatype msg =
    Lit string
  | Rupees pyfloat
  | TaxRateOK pyfloat pyfloat
  | TaxMismatch pyfloat pyfloat pyfloat

datatype cval = CBool bool | CStr msg | CList "string list"

type_synonym check = "(string \<times> cval) list"

record report =
  passed :: bool
  checks :: "(string \<times> check) list"

type_synonym pydict = "string \<rightharpoonup> pyval"

definition dict_get :: "pydict \<Rightarrow> string \<Rightarrow> pyval" where
  \<comment> \<open>\<^verbatim>\<open>data.get(k)\<close>\<close>
  "dict_get d k = (case d k of None \<Rightarrow> PNone | Some v \<Rightarrow> v)"

definition EXPECTED_TAX_RATE :: pyfloat where
  "EXPECTED_TAX_RATE = round_double (8 / 100)"

definition TOLERANCE :: pyfloat where
  "TOLERANCE = round_double (5 / 100)"

definition required :: "string list" where
  "required = [''bill_id'', ''vendor'', ''date'', ''amount'', ''tax'']"

definition put :: "string \<Rightarrow> check \<Rightarrow> report \<Rightarrow> report" where
  \<comment> \<open>\<^verbatim>\<open>checks[name] = c\<close>\<close>
  "put name c st = st\<lparr>checks := AList.update name c (checks st)\<rparr>"

definition date_format_section :: "pyval \<Rightarrow> report \<Rightarrow> pyexn + report" where
  \<comment> \<open>when \<^verbatim>\<open>str(date_val)\<close> raises, the handler's f-string raises it again\<close>
  "date_format_section date_val st =
     (case py_str date_val of
        Inl e \<Rightarrow> Inl e
      | Inr s \<Rightarrow>
          (case strptime_ymd s of
             Inr _ \<Rightarrow>
               Inr (put ''date_format''
                      [(''pass'', CBool True), (''details'', CStr (Lit (''Valid date: '' @ s)))] st)
           | Inl _ \<Rightarrow>
               Inr ((put ''date_format''
                       [(''pass'', CBool False),
                        (''details'', CStr (Lit (''Invalid date format: '' @ s)))] st)
                    \<lparr>passed := False\<rparr>)))"

definition coerce_float :: "pyval \<Rightarrow> pyexn + pyfloat" where
  \<comment> \<open>\<^verbatim>\<open>try: x = float(v) if v is not None else 0.0 except (ValueError, TypeError): x = 0.0\<close>\<close>
  "coerce_float v =
     (if v = PNone then Inr (Fin 0)
      else case py_float v of
             Inr x \<Rightarrow> Inr x
           | Inl ValueError \<Rightarrow> Inr (Fin 0)
           | Inl TypeError \<Rightarrow> Inr (Fin 0)
           | Inl e \<Rightarrow> Inl e)"

definition total_section :: "pyfloat \<Rightarrow> report \<Rightarrow> report" where
  "total_section amount st =
     (if flt (Fin 0) amount then
        put ''total_amount'' [(''pass'', CBool True), (''value'', CStr (Rupees amount))] st
      else
        (put ''total_amount''
           [(''pass'', CBool False), (''details'', CStr (Lit ''Invalid amount value''))] st)
        \<lparr>passed := False\<rparr>)"

text \<open>The loop over the two candidate subtotals: the result is \<open>(valid, used_subtotal, actual_rate)\<close>.\<close>

fun find_rate :: "pyfloat \<Rightarrow> pyfloat list \<Rightarrow> bool \<times> pyfloat \<times> pyfloat" where
  "find_rate tax [] = (False, Fin 0, Fin 0)"
| "find_rate tax (subtotal # rest) =
     (if fle subtotal (Fin 0) then find_rate tax rest
      else case fdiv tax subtotal of
             Inl e \<Rightarrow> find_rate tax rest
           | Inr rate \<Rightarrow>
               if fle (fabs (fsub rate EXPECTED_TAX_RATE)) TOLERANCE
               then (True, subtotal, rate)
               else find_rate tax rest)"

definition tax_rate_section :: "pyfloat \<Rightarrow> pyfloat \<Rightarrow> report \<Rightarrow> report" where
  "tax_rate_section amount tax st =
     (if feq tax (Fin 0) then
        put ''tax_rate'' [(''pass'', CBool True), (''details'', CStr (Lit ''No tax applied''))] st
      else
        let subtotal_option_1 = fsub amount tax;
            subtotal_option_2 = amount;
            (valid, used_subtotal, actual_rate) =
              find_rate tax [subtotal_option_1, subtotal_option_2]
        in if valid then
             put ''tax_rate''
               [(''pass'', CBool True),
                (''details'', CStr (TaxRateOK (fmul actual_rate (Fin 100)) used_subtotal))] st
           else
             (put ''tax_rate''
                [(''pass'', CBool False),
                 (''details'',
                  CStr (TaxMismatch (fmul EXPECTED_TAX_RATE (Fin 100)) tax amount))] st)
             \<lparr>passed := False\<rparr>)"

definition duplicate_section :: "(pyval \<Rightarrow> bool) \<Rightarrow> pyval \<Rightarrow> bool \<Rightarrow> report \<Rightarrow> report" where
  "duplicate_section receipt_exists bill_id skip_duplicate st =
     (if \<not> skip_duplicate then
        (if receipt_exists bill_id then
           (put ''is_duplicate''
              [(''pass'', CBool False), (''details'', CStr (Lit ''Duplicate receipt found''))] st)
           \<lparr>passed := False\<rparr>
         else
           put ''is_duplicate''
             [(''pass'', CBool True), (''details'', CStr (Lit ''No duplicate found''))] st)
      else
        put ''is_duplicate''
          [(''pass'', CBool True), (''details'', CStr (Lit ''Duplicate check skipped''))] st)"

text \<open>
  \<open>receipt_exists\<close> is the lookup imported from \<^verbatim>\<open>database.queries\<close>, taken as a
  total function of the bill id.
\<close>

definition validate_receipt ::
  "(pyval \<Rightarrow> bool) \<Rightarrow> pydict \<Rightarrow> bool \<Rightarrow> pyexn + report" where
  "validate_receipt receipt_exists data skip_duplicate =
     (let missing = filter (\<lambda>f. dict_get data f = PNone) required
      in if missing \<noteq> [] then
           Inr (put ''required_fields'' [(''pass'', CBool False), (''missing'', CList missing)]
                  \<lparr>passed = False, checks = []\<rparr>)
         else
           let st0 = put ''required_fields''
                       [(''pass'', CBool True),
                        (''details'', CStr (Lit ''All required fields present''))]
                       \<lparr>passed = True, checks = []\<rparr>
           in case date_format_section (dict_get data ''date'') st0 of
                Inl e \<Rightarrow> Inl e
              | Inr st1 \<Rightarrow>
                  (case coerce_float (dict_get data ''amount'') of
                     Inl e \<Rightarrow> Inl e
                   | Inr amount \<Rightarrow>
                       (case coerce_float (dict_get data ''tax'') of
                          Inl e \<Rightarrow> Inl e
                        | Inr tax \<Rightarrow>
                            Inr (duplicate_section receipt_exists (dict_get data ''bill_id'')
                                   skip_duplicate
                                   (tax_rate_section amount tax (total_section amount st1))))))"

subsection \<open>The date texts that pass, stated without the regular expression\<close>

text \<open>
  The text splits at \<^verbatim>\<open>-\<close> into exactly three parts: four digits that are a year of at
  least 1; a month from 1 to 12 written with one or two digits; a day written with one
  or two digits, or with a space and one digit, that the month of that year has.
\<close>

fun split_on :: "char \<Rightarrow> string \<Rightarrow> string list" where
  "split_on c [] = [[]]"
| "split_on c (x # xs) =
     (if x = c then [] # split_on c xs
      else case split_on c xs of [] \<Rightarrow> [[x]] | p # ps \<Rightarrow> (x # p) # ps)"

definition one_digit_texts :: "string list" where
  \<comment> \<open>\<^verbatim>\<open>1\<close> to \<^verbatim>\<open>9\<close>\<close>
  "one_digit_texts = map (\<lambda>c. [c]) ''123456789''"

definition padded_texts :: "char \<Rightarrow> string list" where
  \<comment> \<open>a digit from 1 to 9 after the character \<open>p\<close>\<close>
  "padded_texts p = map (\<lambda>c. [p, c]) ''123456789''"

definition month_texts :: "string list" where
  "month_texts = one_digit_texts @ padded_texts (CHR ''0'') @ [''10'', ''11'', ''12'']"

definition day_texts :: "string list" where
  "day_texts =
     one_digit_texts @ padded_texts (CHR ''0'')
     @ [[t, u]. t \<leftarrow> ''12'', u \<leftarrow> ''0123456789''] @ [''30'', ''31'']
     @ padded_texts (CHR '' '')"

definition valid_date_text :: "string \<Rightarrow> bool" where
  "valid_date_text s =
     (case split_on (CHR ''-'') s of
        [y, m, d] \<Rightarrow>
          length y = 4 \<and> list_all is_digit y \<and> m \<in> set month_texts
          \<and> d \<in> set day_texts
          \<and> 1 \<le> to_int y \<and> to_int d \<le> days_in_month (to_int y) (to_int m)
      | _ \<Rightarrow> False)"

section \<open>Reading a report\<close>

definition is_missing :: "pydict \<Rightarrow> string \<Rightarrow> bool" where
  \<comment> \<open>the key is absent, or its value is \<^verbatim>\<open>None\<close>\<close>
  "is_missing data f = (data f = None \<or> data f = Some PNone)"

definition all_present :: "pydict \<Rightarrow> bool" where
  "all_present data = list_all (\<lambda>f. \<not> is_missing data f) required"

definition check_of :: "report \<Rightarrow> string \<Rightarrow> check option" where
  \<comment> \<open>\<^verbatim>\<open>report["checks"].get(name)\<close>\<close>
  "check_of r name = map_of (checks r) name"

definition check_pass :: "check \<Rightarrow> bool" where
  \<comment> \<open>\<^verbatim>\<open>c["pass"]\<close> is \<^verbatim>\<open>True\<close>\<close>
  "check_pass c = (map_of c ''pass'' = Some (CBool True))"

text \<open>The entry each section stores, as a function of what the section tests.\<close>

definition date_entry :: "string \<Rightarrow> check" where
  "date_entry s =
     (case strptime_ymd s of
        Inr _ \<Rightarrow> [(''pass'', CBool True), (''details'', CStr (Lit (''Valid date: '' @ s)))]
      | Inl _ \<Rightarrow> [(''pass'', CBool False), (''details'', CStr (Lit (''Invalid date format: '' @ s)))])"

definition total_entry :: "pyfloat \<Rightarrow> check" where
  "total_entry amount =
     (if flt (Fin 0) amount then [(''pass'', CBool True), (''value'', CStr (Rupees amount))]
      else [(''pass'', CBool False), (''details'', CStr (Lit ''Invalid amount value''))])"

definition tax_entry :: "pyfloat \<Rightarrow> pyfloat \<Rightarrow> check" where
  "tax_entry amount tax =
     (if feq tax (Fin 0) then [(''pass'', CBool True), (''details'', CStr (Lit ''No tax applied''))]
      else case find_rate tax [fsub amount tax, amount] of
             (valid, used_subtotal, actual_rate) \<Rightarrow>
               if valid then
                 [(''pass'', CBool True),
                  (''details'', CStr (TaxRateOK (fmul actual_rate (Fin 100)) used_subtotal))]
               else
                 [(''pass'', CBool False),
                  (''details'', CStr (TaxMismatch (fmul EXPECTED_TAX_RATE (Fin 100)) tax amount))])"

definition dup_entry :: "(pyval \<Rightarrow> bool) \<Rightarrow> pyval \<Rightarrow> bool \<Rightarrow> check" where
  "dup_entry receipt_exists bill_id skip_duplicate =
     (if skip_duplicate then [(''pass'', CBool True), (''details'', CStr (Lit ''Duplicate check skipped''))]
      else if receipt_exists bill_id then
        [(''pass'', CBool False), (''details'', CStr (Lit ''Duplicate receipt found''))]
      else [(''pass'', CBool True), (''details'', CStr (Lit ''No duplicate found''))])"

text \<open>
  The rate of a candidate subtotal, \<open>None\<close> when the loop skips the candidate; a candidate
  qualifies when it is not skipped and its rate is within the tolerance.
\<close>

definition within_tolerance :: "pyfloat \<Rightarrow> bool" where
  \<comment> \<open>\<^verbatim>\<open>abs(rate - EXPECTED_TAX_RATE) <= TOLERANCE\<close>\<close>
  "within_tolerance rate = fle (fabs (fsub rate EXPECTED_TAX_RATE)) TOLERANCE"

definition candidate_rate :: "pyfloat \<Rightarrow> pyfloat \<Rightarrow> pyfloat option" where
  "candidate_rate tax subtotal =
     (if fle subtotal (Fin 0) then None
      else case fdiv tax subtotal of Inl e \<Rightarrow> None | Inr rate \<Rightarrow> Some rate)"

definition qualifies :: "pyfloat \<Rightarrow> pyfloat \<Rightarrow> bool" where
  "qualifies tax subtotal =
     (case candidate_rate tax subtotal of None \<Rightarrow> False | Some rate \<Rightarrow> within_tolerance rate)"

definition has_details_or_missing :: "check \<Rightarrow> bool" where
  "has_details_or_missing c =
     ((case map_of c ''details'' of Some (CStr m) \<Rightarrow> True | _ \<Rightarrow> False)
      \<or> (case map_of c ''missing'' of Some (CList l) \<Rightarrow> True | _ \<Rightarrow> False))"

definition has_pass :: "check \<Rightarrow> bool" where
  \<comment> \<open>the entry has a boolean under \<^verbatim>\<open>"pass"\<close>\<close>
  "has_pass c = (case map_of c ''pass'' of Some (CBool b) \<Rightarrow> True | _ \<Rightarrow> False)"

definition check_names :: "string list" where
  "check_names = [''required_fields'', ''date_format'', ''total_amount'', ''tax_rate'', ''is_duplicate'']"

definition check_in :: "pyexn + report \<Rightarrow> string \<Rightarrow> check option" where
  \<comment> \<open>the named check of a result, \<open>None\<close> when there is no report or no such check\<close>
  "check_in res name = (case res of Inl e \<Rightarrow> None | Inr r \<Rightarrow> check_of r name)"

definition has_value :: "check \<Rightarrow> bool" where
  "has_value c = (case map_of c ''value'' of Some (CStr m) \<Rightarrow> True | _ \<Rightarrow> False)"

definition coercion_fails :: "pyval \<Rightarrow> bool" where
  \<comment> \<open>\<^verbatim>\<open>float(v)\<close> raises one of the two exceptions the validator catches\<close>
  "coercion_fails v = (py_float v = Inl ValueError \<or> py_float v = Inl TypeError)"

subsection \<open>Sample inputs\<close>

definition receipt :: "pyval \<Rightarrow> pyval \<Rightarrow> pyval \<Rightarrow> pyval \<Rightarrow> pyval \<Rightarrow> pydict" where
  \<comment> \<open>\<^verbatim>\<open>{"bill_id": b, "vendor": v, "date": d, "amount": a, "tax": t}\<close>\<close>
  "receipt b v d a t =
     map_of [(''bill_id'', b), (''vendor'', v), (''date'', d), (''amount'', a), (''tax'', t)]"

definition never_exists :: "pyval \<Rightarrow> bool" where
  "never_exists bill_id = False"

definition always_exists :: "pyval \<Rightarrow> bool" where
  "always_exists bill_id = True"

section \<open>Normal form of the validator\<close>

lemma dict_get_None: "dict_get data f = PNone \<longleftrightarrow> is_missing data f"
  by (auto simp: dict_get_def is_missing_def split: option.splits)

lemma missing_filter:
  "filter (\<lambda>f. dict_get data f = PNone) required = filter (is_missing data) required"
  by (simp add: dict_get_None)

lemma all_present_filter: "all_present data \<longleftrightarrow> filter (is_missing data) required = []"
  by (auto simp: all_present_def list_all_iff filter_empty_conv)

lemma date_format_section_nf:
  "date_format_section v st =
     (case py_str v of
        Inl e \<Rightarrow> Inl e
      | Inr s \<Rightarrow> Inr \<lparr>passed = (passed st \<and> check_pass (date_entry s)),
                      checks = AList.update ''date_format'' (date_entry s) (checks st)\<rparr>)"
  by (cases st) (simp add: date_format_section_def put_def date_entry_def check_pass_def
      split: sum.splits)

lemma total_section_nf:
  "total_section a st =
     \<lparr>passed = (passed st \<and> check_pass (total_entry a)),
      checks = AList.update ''total_amount'' (total_entry a) (checks st)\<rparr>"
  by (cases st) (simp add: total_section_def put_def total_entry_def check_pass_def)

lemma tax_rate_section_nf:
  "tax_rate_section a t st =
     \<lparr>passed = (passed st \<and> check_pass (tax_entry a t)),
      checks = AList.update ''tax_rate'' (tax_entry a t) (checks st)\<rparr>"
proof -
  obtain valid u r where f: "find_rate t [fsub a t, a] = (valid, u, r)"
    by (cases "find_rate t [fsub a t, a]") auto
  show ?thesis
    by (cases st)
      (simp add: tax_rate_section_def put_def tax_entry_def check_pass_def Let_def f
        del: find_rate.simps)
qed

lemma duplicate_section_nf:
  "duplicate_section re b skip st =
     \<lparr>passed = (passed st \<and> check_pass (dup_entry re b skip)),
      checks = AList.update ''is_duplicate'' (dup_entry re b skip) (checks st)\<rparr>"
  by (cases st) (simp add: duplicate_section_def put_def dup_entry_def check_pass_def)

lemma validate_receipt_present:
  assumes "all_present data"
  shows "validate_receipt receipt_exists data skip_duplicate =
     (case py_str (dict_get data ''date'') of
        Inl e \<Rightarrow> Inl e
      | Inr s \<Rightarrow>
          (case coerce_float (dict_get data ''amount'') of
             Inl e \<Rightarrow> Inl e
           | Inr a \<Rightarrow>
               (case coerce_float (dict_get data ''tax'') of
                  Inl e \<Rightarrow> Inl e
                | Inr t \<Rightarrow>
                    Inr \<lparr>passed =
                           (check_pass (date_entry s) \<and> check_pass (total_entry a)
                            \<and> check_pass (tax_entry a t)
                            \<and> check_pass (dup_entry receipt_exists (dict_get data ''bill_id'')
                                            skip_duplicate)),
                         checks =
                           [(''required_fields'',
                             [(''pass'', CBool True),
                              (''details'', CStr (Lit ''All required fields present''))]),
                            (''date_format'', date_entry s),
                            (''total_amount'', total_entry a),
                            (''tax_rate'', tax_entry a t),
                            (''is_duplicate'',
                             dup_entry receipt_exists (dict_get data ''bill_id'')
                               skip_duplicate)]\<rparr>)))"
  using assms
  by (simp add: validate_receipt_def missing_filter all_present_filter put_def
      date_format_section_nf total_section_nf tax_rate_section_nf duplicate_section_nf
      split: sum.splits)

lemma validate_receipt_missing:
  assumes "\<not> all_present data"
  shows "validate_receipt receipt_exists data skip_duplicate =
     Inr \<lparr>passed = False,
          checks = [(''required_fields'',
                     [(''pass'', CBool False),
                      (''missing'', CList (filter (is_missing data) required))])]\<rparr>"
  using assms by (simp add: validate_receipt_def missing_filter all_present_filter put_def)

section \<open>Evaluation on the sample inputs\<close>

lemmas round_eval =
  round_double_def flog2_def pow2_def round_half_even_def ilog2.simps Let_def

lemmas strptime_eval =
  strptime_ymd_def re_Y_dash_def re_m_dash_def re_Y_def re_m_def re_d_def re_dash_def
  one_char_def two_chars_def
  to_int_def parse_digits_def digit_val_def is_digit_def is_leap_def days_in_month_def

lemma all_present_receipt:
  "all_present (receipt b v d a t) \<longleftrightarrow>
     b \<noteq> PNone \<and> v \<noteq> PNone \<and> d \<noteq> PNone \<and> a \<noteq> PNone \<and> t \<noteq> PNone"
  by (auto simp: all_present_def required_def is_missing_def receipt_def)

lemma dict_get_receipt:
  "dict_get (receipt b v d a t) ''bill_id'' = b"
  "dict_get (receipt b v d a t) ''vendor'' = v"
  "dict_get (receipt b v d a t) ''date'' = d"
  "dict_get (receipt b v d a t) ''amount'' = a"
  "dict_get (receipt b v d a t) ''tax'' = t"
  by (simp_all add: dict_get_def receipt_def)

lemma coerce_float_0: "coerce_float (PInt 0) = Inr (Fin 0)"
  by (simp add: coerce_float_def round_double_def)

lemma coerce_float_1000: "coerce_float (PInt 1000) = Inr (Fin 1000)"
  by (simp add: coerce_float_def round_eval)

lemma coerce_float_minus_5: "coerce_float (PInt (- 5)) = Inr (Fin (- 5))"
  by (simp add: coerce_float_def round_eval)

lemma strptime_2024_01_15: "strptime_ymd ''2024-01-15'' = Inr (2024, 1, 15)"
  by (simp add: strptime_eval)

text \<open>
  C1. A record in which a required field is absent or \<^verbatim>\<open>None\<close> gets a report with
  \<open>passed = False\<close> and the single check \<open>required_fields\<close>, failed, whose \<open>missing\<close> list
  is the required names that are absent or \<^verbatim>\<open>None\<close>, in the order of \<open>required\<close>; no
  other check is run.
\<close>

theorem required_fields_short_circuit:
  assumes "\<not> all_present data"
  shows "validate_receipt receipt_exists data skip_duplicate =
     Inr \<lparr>passed = False,
          checks = [(''required_fields'',
                     [(''pass'', CBool False),
                      (''missing'', CList (filter (is_missing data) required))])]\<rparr>"
  using assms by (rule validate_receipt_missing)

text \<open>An empty vendor and a zero amount are present; the date is \<^verbatim>\<open>None\<close>, the tax absent.\<close>

theorem required_fields_short_circuit_witness:
  "\<not> all_present [''bill_id'' \<mapsto> PStr ''B1'', ''vendor'' \<mapsto> PStr '''', ''date'' \<mapsto> PNone,
                     ''amount'' \<mapsto> PInt 0]
   \<and> validate_receipt always_exists
        [''bill_id'' \<mapsto> PStr ''B1'', ''vendor'' \<mapsto> PStr '''', ''date'' \<mapsto> PNone,
         ''amount'' \<mapsto> PInt 0] False =
      Inr \<lparr>passed = False,
           checks = [(''required_fields'',
                      [(''pass'', CBool False), (''missing'', CList [''date'', ''tax''])])]\<rparr>"
proof -
  let ?d = "[''bill_id'' \<mapsto> PStr ''B1'', ''vendor'' \<mapsto> PStr '''', ''date'' \<mapsto> PNone,
             ''amount'' \<mapsto> PInt 0]"
  have h: "\<not> all_present ?d"
    by (simp add: all_present_def required_def is_missing_def)
  show ?thesis
    using h required_fields_short_circuit [OF h, of always_exists False]
    by (simp add: required_def is_missing_def)
qed

text \<open>
  C6. In every report returned, \<open>passed\<close> is true exactly when every check of the report
  has \<open>pass = True\<close>.
\<close>

theorem passed_is_conjunction:
  assumes "validate_receipt receipt_exists data skip_duplicate = Inr r"
  shows "passed r \<longleftrightarrow> list_all (\<lambda>(n, c). check_pass c) (checks r)"
proof (cases "all_present data")
  case True
  with assms show ?thesis
    by (auto simp: validate_receipt_present check_pass_def split: sum.splits)
next
  case False
  with assms show ?thesis
    by (auto simp: validate_receipt_missing check_pass_def)
qed

theorem passed_is_conjunction_witness:
  "validate_receipt always_exists
     (receipt (PStr ''B1'') (PStr ''Shop'') (PStr ''2024-01-15'') (PInt 1000) (PInt 0)) False =
   Inr \<lparr>passed = False,
        checks =
          [(''required_fields'',
            [(''pass'', CBool True), (''details'', CStr (Lit ''All required fields present''))]),
           (''date_format'',
            [(''pass'', CBool True), (''details'', CStr (Lit ''Valid date: 2024-01-15''))]),
           (''total_amount'', [(''pass'', CBool True), (''value'', CStr (Rupees (Fin 1000)))]),
           (''tax_rate'', [(''pass'', CBool True), (''details'', CStr (Lit ''No tax applied''))]),
           (''is_duplicate'',
            [(''pass'', CBool False), (''details'', CStr (Lit ''Duplicate receipt found''))])]\<rparr>
   \<and> \<not> list_all (\<lambda>(n, c). check_pass c)
         [(''required_fields'',
            [(''pass'', CBool True), (''details'', CStr (Lit ''All required fields present''))]),
           (''date_format'',
            [(''pass'', CBool True), (''details'', CStr (Lit ''Valid date: 2024-01-15''))]),
           (''total_amount'', [(''pass'', CBool True), (''value'', CStr (Rupees (Fin 1000)))]),
           (''tax_rate'', [(''pass'', CBool True), (''details'', CStr (Lit ''No tax applied''))]),
           (''is_duplicate'',
            [(''pass'', CBool False), (''details'', CStr (Lit ''Duplicate receipt found''))])]"
proof -
  let ?d = "receipt (PStr ''B1'') (PStr ''Shop'') (PStr ''2024-01-15'') (PInt 1000) (PInt 0)"
  let ?r = "\<lparr>passed = False,
        checks =
          [(''required_fields'',
            [(''pass'', CBool True), (''details'', CStr (Lit ''All required fields present''))]),
           (''date_format'',
            [(''pass'', CBool True), (''details'', CStr (Lit ''Valid date: 2024-01-15''))]),
           (''total_amount'', [(''pass'', CBool True), (''value'', CStr (Rupees (Fin 1000)))]),
           (''tax_rate'', [(''pass'', CBool True), (''details'', CStr (Lit ''No tax applied''))]),
           (''is_duplicate'',
            [(''pass'', CBool False), (''details'', CStr (Lit ''Duplicate receipt found''))])]\<rparr>"
  have p: "all_present ?d"
    by (simp add: all_present_receipt)
  have h: "validate_receipt always_exists ?d False = Inr ?r"
    by (simp add: validate_receipt_present [OF p] dict_get_receipt coerce_float_0
        coerce_float_1000 date_entry_def strptime_2024_01_15 total_entry_def tax_entry_def
        dup_entry_def always_exists_def check_pass_def)
  show ?thesis
    using h passed_is_conjunction [OF h] by simp
qed

lemma sample_report:
  "validate_receipt re
     (receipt (PStr ''B1'') (PStr ''Shop'') (PStr ''2024-01-15'') (PInt 1000) (PInt 0)) skip =
   Inr \<lparr>passed = check_pass (dup_entry re (PStr ''B1'') skip),
        checks =
          [(''required_fields'',
            [(''pass'', CBool True), (''details'', CStr (Lit ''All required fields present''))]),
           (''date_format'',
            [(''pass'', CBool True), (''details'', CStr (Lit ''Valid date: 2024-01-15''))]),
           (''total_amount'', [(''pass'', CBool True), (''value'', CStr (Rupees (Fin 1000)))]),
           (''tax_rate'', [(''pass'', CBool True), (''details'', CStr (Lit ''No tax applied''))]),
           (''is_duplicate'', dup_entry re (PStr ''B1'') skip)]\<rparr>"
proof -
  have p: "all_present
             (receipt (PStr ''B1'') (PStr ''Shop'') (PStr ''2024-01-15'') (PInt 1000) (PInt 0))"
    by (simp add: all_present_receipt)
  show ?thesis
    by (simp add: validate_receipt_present [OF p] dict_get_receipt coerce_float_0
        coerce_float_1000 date_entry_def strptime_2024_01_15 total_entry_def tax_entry_def
        check_pass_def)
qed

lemma check_of_present:
  assumes "all_present data"
    and "validate_receipt receipt_exists data skip_duplicate = Inr r"
  obtains s a t where
    "py_str (dict_get data ''date'') = Inr s"
    "coerce_float (dict_get data ''amount'') = Inr a"
    "coerce_float (dict_get data ''tax'') = Inr t"
    "checks r =
       [(''required_fields'',
         [(''pass'', CBool True), (''details'', CStr (Lit ''All required fields present''))]),
        (''date_format'', date_entry s),
        (''total_amount'', total_entry a),
        (''tax_rate'', tax_entry a t),
        (''is_duplicate'', dup_entry receipt_exists (dict_get data ''bill_id'') skip_duplicate)]"
    "passed r =
       (check_pass (date_entry s) \<and> check_pass (total_entry a) \<and> check_pass (tax_entry a t)
        \<and> check_pass (dup_entry receipt_exists (dict_get data ''bill_id'') skip_duplicate))"
  using assms by (auto simp: validate_receipt_present split: sum.splits)

lemma validate_receipt_skip_lookup:
  "validate_receipt re1 data True = validate_receipt re2 data True"
  by (simp add: validate_receipt_def duplicate_section_def Let_def split: sum.splits)

text \<open>
  C7 (as amended). For a record with all required fields and \<open>skip_duplicate = False\<close>, in
  the report returned: when the lookup finds the record's bill id, \<open>is_duplicate\<close> fails
  with details \<^verbatim>\<open>Duplicate receipt found\<close> and \<open>passed\<close> is false whatever the other
  checks are; when it does not, \<open>is_duplicate\<close> passes.
\<close>

theorem duplicate_found_fails:
  assumes "all_present data"
    and "validate_receipt receipt_exists data False = Inr r"
  shows "(receipt_exists (dict_get data ''bill_id'') \<longrightarrow>
            check_of r ''is_duplicate'' =
              Some [(''pass'', CBool False), (''details'', CStr (Lit ''Duplicate receipt found''))]
            \<and> \<not> passed r)
         \<and> (\<not> receipt_exists (dict_get data ''bill_id'') \<longrightarrow>
            (\<exists>c. check_of r ''is_duplicate'' = Some c \<and> check_pass c))"
proof -
  from assms obtain s a t where
    c: "checks r =
       [(''required_fields'',
         [(''pass'', CBool True), (''details'', CStr (Lit ''All required fields present''))]),
        (''date_format'', date_entry s),
        (''total_amount'', total_entry a),
        (''tax_rate'', tax_entry a t),
        (''is_duplicate'', dup_entry receipt_exists (dict_get data ''bill_id'') False)]"
    and p: "passed r =
       (check_pass (date_entry s) \<and> check_pass (total_entry a) \<and> check_pass (tax_entry a t)
        \<and> check_pass (dup_entry receipt_exists (dict_get data ''bill_id'') False))"
    by (rule check_of_present)
  show ?thesis
    by (simp add: check_of_def c p dup_entry_def check_pass_def)
qed

theorem duplicate_found_fails_witness:
  "all_present (receipt (PStr ''B1'') (PStr ''Shop'') (PStr ''2024-01-15'') (PInt 1000) (PInt 0))
   \<and> always_exists (PStr ''B1'')
   \<and> check_in
        (validate_receipt always_exists
           (receipt (PStr ''B1'') (PStr ''Shop'') (PStr ''2024-01-15'') (PInt 1000) (PInt 0))
           False)
        ''is_duplicate'' =
      Some [(''pass'', CBool False), (''details'', CStr (Lit ''Duplicate receipt found''))]
   \<and> check_in
        (validate_receipt never_exists
           (receipt (PStr ''B1'') (PStr ''Shop'') (PStr ''2024-01-15'') (PInt 1000) (PInt 0))
           False)
        ''is_duplicate'' =
      Some [(''pass'', CBool True), (''details'', CStr (Lit ''No duplicate found''))]"
proof -
  let ?d = "receipt (PStr ''B1'') (PStr ''Shop'') (PStr ''2024-01-15'') (PInt 1000) (PInt 0)"
  have p: "all_present ?d"
    by (simp add: all_present_receipt)
  obtain r where h: "validate_receipt always_exists ?d False = Inr r"
    by (simp add: sample_report)
  have "check_of r ''is_duplicate'' =
          Some [(''pass'', CBool False), (''details'', CStr (Lit ''Duplicate receipt found''))]"
    using duplicate_found_fails [OF p h] by (simp add: dict_get_receipt always_exists_def)
  then show ?thesis
    using p h
    by (simp add: check_in_def sample_report check_of_def dup_entry_def never_exists_def
        always_exists_def)
qed

theorem duplicate_found_lower_case_counterexample:
  "check_in
     (validate_receipt always_exists
        (receipt (PStr ''B1'') (PStr ''Shop'') (PStr ''2024-01-15'') (PInt 1000) (PInt 0)) False)
     ''is_duplicate'' =
   Some [(''pass'', CBool False), (''details'', CStr (Lit ''Duplicate receipt found''))]
   \<and> check_in
     (validate_receipt always_exists
        (receipt (PStr ''B1'') (PStr ''Shop'') (PStr ''2024-01-15'') (PInt 1000) (PInt 0)) False)
     ''is_duplicate'' \<noteq>
   Some [(''pass'', CBool False), (''details'', CStr (Lit ''duplicate receipt found''))]"
  by (simp add: check_in_def sample_report check_of_def dup_entry_def always_exists_def)

text \<open>
  C8 (as amended). For a record with all required fields and \<open>skip_duplicate = True\<close>,
  \<open>is_duplicate\<close> passes with details \<^verbatim>\<open>Duplicate check skipped\<close>, and the lookup is not
  used: any other lookup function gives the same report.
\<close>

theorem skip_ignores_lookup:
  assumes "all_present data"
    and "validate_receipt receipt_exists data True = Inr r"
  shows "check_of r ''is_duplicate'' =
           Some [(''pass'', CBool True), (''details'', CStr (Lit ''Duplicate check skipped''))]
         \<and> validate_receipt other_lookup data True = Inr r"
proof -
  from assms obtain s a t where
    c: "checks r =
       [(''required_fields'',
         [(''pass'', CBool True), (''details'', CStr (Lit ''All required fields present''))]),
        (''date_format'', date_entry s),
        (''total_amount'', total_entry a),
        (''tax_rate'', tax_entry a t),
        (''is_duplicate'', dup_entry receipt_exists (dict_get data ''bill_id'') True)]"
    by (rule check_of_present)
  have "validate_receipt other_lookup data True = validate_receipt receipt_exists data True"
    by (rule validate_receipt_skip_lookup)
  with assms(2) show ?thesis
    by (simp add: check_of_def c dup_entry_def)
qed

theorem skip_ignores_lookup_witness:
  "all_present (receipt (PStr ''B1'') (PStr ''Shop'') (PStr ''2024-01-15'') (PInt 1000) (PInt 0))
   \<and> check_in
        (validate_receipt always_exists
           (receipt (PStr ''B1'') (PStr ''Shop'') (PStr ''2024-01-15'') (PInt 1000) (PInt 0))
           True)
        ''is_duplicate'' =
      Some [(''pass'', CBool True), (''details'', CStr (Lit ''Duplicate check skipped''))]
   \<and> validate_receipt never_exists
        (receipt (PStr ''B1'') (PStr ''Shop'') (PStr ''2024-01-15'') (PInt 1000) (PInt 0)) True =
      validate_receipt always_exists
        (receipt (PStr ''B1'') (PStr ''Shop'') (PStr ''2024-01-15'') (PInt 1000) (PInt 0)) True"
proof -
  let ?d = "receipt (PStr ''B1'') (PStr ''Shop'') (PStr ''2024-01-15'') (PInt 1000) (PInt 0)"
  have p: "all_present ?d"
    by (simp add: all_present_receipt)
  obtain r where h: "validate_receipt always_exists ?d True = Inr r"
    by (simp add: sample_report)
  show ?thesis
    using p h skip_ignores_lookup [OF p h, of never_exists]
    by (simp add: check_in_def)
qed

theorem skip_lower_case_counterexample:
  "check_in
     (validate_receipt always_exists
        (receipt (PStr ''B1'') (PStr ''Shop'') (PStr ''2024-01-15'') (PInt 1000) (PInt 0)) True)
     ''is_duplicate'' =
   Some [(''pass'', CBool True), (''details'', CStr (Lit ''Duplicate check skipped''))]
   \<and> check_in
     (validate_receipt always_exists
        (receipt (PStr ''B1'') (PStr ''Shop'') (PStr ''2024-01-15'') (PInt 1000) (PInt 0)) True)
     ''is_duplicate'' \<noteq>
   Some [(''pass'', CBool True), (''details'', CStr (Lit ''duplicate check skipped''))]"
  by (simp add: check_in_def sample_report check_of_def dup_entry_def)

lemma sample_negative_report:
  "validate_receipt re
     (receipt (PStr ''B1'') (PStr ''Shop'') (PStr ''2024-01-15'') (PInt (- 5)) (PInt 0)) skip =
   Inr \<lparr>passed = False,
        checks =
          [(''required_fields'',
            [(''pass'', CBool True), (''details'', CStr (Lit ''All required fields present''))]),
           (''date_format'',
            [(''pass'', CBool True), (''details'', CStr (Lit ''Valid date: 2024-01-15''))]),
           (''total_amount'',
            [(''pass'', CBool False), (''details'', CStr (Lit ''Invalid amount value''))]),
           (''tax_rate'', [(''pass'', CBool True), (''details'', CStr (Lit ''No tax applied''))]),
           (''is_duplicate'', dup_entry re (PStr ''B1'') skip)]\<rparr>"
proof -
  have p: "all_present
             (receipt (PStr ''B1'') (PStr ''Shop'') (PStr ''2024-01-15'') (PInt (- 5)) (PInt 0))"
    by (simp add: all_present_receipt)
  show ?thesis
    by (simp add: validate_receipt_present [OF p] dict_get_receipt coerce_float_0
        coerce_float_minus_5 date_entry_def strptime_2024_01_15 total_entry_def tax_entry_def
        check_pass_def)
qed

text \<open>
  C9. For a record with all required fields, in the report returned: \<open>total_amount\<close>
  passes exactly when the coerced amount is greater than 0; otherwise it fails with
  details \<^verbatim>\<open>Invalid amount value\<close>, the same entry for a zero, a negative and an
  unparseable amount, and \<open>passed\<close> is false.
\<close>

theorem total_amount_positive:
  assumes "all_present data"
    and "validate_receipt receipt_exists data skip_duplicate = Inr r"
    and "coerce_float (dict_get data ''amount'') = Inr a"
  shows "((\<exists>c. check_of r ''total_amount'' = Some c \<and> check_pass c) \<longleftrightarrow> flt (Fin 0) a)
         \<and> (\<not> flt (Fin 0) a \<longrightarrow>
              check_of r ''total_amount'' =
                Some [(''pass'', CBool False), (''details'', CStr (Lit ''Invalid amount value''))]
              \<and> \<not> passed r)"
proof -
  from assms(1,2) obtain s a' t where
    a': "coerce_float (dict_get data ''amount'') = Inr a'"
    and c: "checks r =
       [(''required_fields'',
         [(''pass'', CBool True), (''details'', CStr (Lit ''All required fields present''))]),
        (''date_format'', date_entry s),
        (''total_amount'', total_entry a'),
        (''tax_rate'', tax_entry a' t),
        (''is_duplicate'', dup_entry receipt_exists (dict_get data ''bill_id'') skip_duplicate)]"
    and p: "passed r =
       (check_pass (date_entry s) \<and> check_pass (total_entry a') \<and> check_pass (tax_entry a' t)
        \<and> check_pass (dup_entry receipt_exists (dict_get data ''bill_id'') skip_duplicate))"
    by (rule check_of_present)
  from a' assms(3) have "a' = a" by simp
  with c p show ?thesis
    by (simp add: check_of_def total_entry_def check_pass_def)
qed

theorem total_amount_positive_witness:
  "all_present (receipt (PStr ''B1'') (PStr ''Shop'') (PStr ''2024-01-15'') (PInt (- 5)) (PInt 0))
   \<and> coerce_float (PInt (- 5)) = Inr (Fin (- 5))
   \<and> \<not> flt (Fin 0) (Fin (- 5))
   \<and> check_in
        (validate_receipt never_exists
           (receipt (PStr ''B1'') (PStr ''Shop'') (PStr ''2024-01-15'') (PInt (- 5)) (PInt 0))
           False)
        ''total_amount'' =
      Some [(''pass'', CBool False), (''details'', CStr (Lit ''Invalid amount value''))]"
proof -
  let ?d = "receipt (PStr ''B1'') (PStr ''Shop'') (PStr ''2024-01-15'') (PInt (- 5)) (PInt 0)"
  have p: "all_present ?d"
    by (simp add: all_present_receipt)
  obtain r where h: "validate_receipt never_exists ?d False = Inr r"
    by (simp add: sample_negative_report)
  have a: "coerce_float (dict_get ?d ''amount'') = Inr (Fin (- 5))"
    by (simp add: dict_get_receipt coerce_float_minus_5)
  show ?thesis
    using p h total_amount_positive [OF p h a]
    by (simp add: check_in_def coerce_float_minus_5)
qed

text \<open>
  C10. The claim that no exception reaches the caller fails: an integer amount too large
  for a float makes \<^verbatim>\<open>float\<close> raise \<^verbatim>\<open>OverflowError\<close>, which the handler for
  \<^verbatim>\<open>(ValueError, TypeError)\<close> does not catch.
\<close>

lemma coerce_float_huge: "coerce_float (PInt (10 ^ 400)) = Inl OverflowError"
  by (simp add: coerce_float_def round_double_def)

theorem huge_amount_raises:
  "validate_receipt never_exists
     (receipt (PStr ''B1'') (PStr ''Shop'') (PStr ''2024-01-15'') (PInt (10 ^ 400)) (PInt 0))
     False =
   Inl OverflowError"
proof -
  have p: "all_present
     (receipt (PStr ''B1'') (PStr ''Shop'') (PStr ''2024-01-15'') (PInt (10 ^ 400)) (PInt 0))"
    by (simp add: all_present_receipt)
  show ?thesis
    by (simp only: validate_receipt_present [OF p] dict_get_receipt coerce_float_huge
        py_str.simps sum.case)
qed

lemma float_of_str_abc: "float_of_str ''abc'' = Inl ValueError"
  by (simp add: float_of_str_def strip_space_def is_space_def split_sign_def lower_def
      parse_number_def is_digit_def)

lemma coerce_float_abc: "coerce_float (PStr ''abc'') = Inr (Fin 0)"
  by (simp add: coerce_float_def float_of_str_abc)

lemma coercion_fails_zero:
  assumes "coercion_fails v" and "coerce_float v = Inr x"
  shows "x = Fin 0"
  using assms by (auto simp: coercion_fails_def coerce_float_def split: if_splits)

text \<open>
  C3 (as amended). For a record with all required fields whose date can be printed and
  whose amount and tax each convert or raise \<^verbatim>\<open>ValueError\<close> or \<^verbatim>\<open>TypeError\<close>, a report
  with exactly the five checks is returned (no entry for the coercion). When the
  conversion of the amount fails, the amount is 0.0, \<open>total_amount\<close> fails and \<open>passed\<close> is
  false. When the conversion of the tax fails, the tax is 0.0 and \<open>tax_rate\<close> passes with
  details \<^verbatim>\<open>No tax applied\<close>.
\<close>

theorem coercion_failure_is_zero:
  assumes "all_present data"
    and "py_str (dict_get data ''date'') = Inr s"
    and "coerce_float (dict_get data ''amount'') = Inr a"
    and "coerce_float (dict_get data ''tax'') = Inr t"
  shows "\<exists>r. validate_receipt receipt_exists data skip_duplicate = Inr r
           \<and> map fst (checks r) = check_names
           \<and> (coercion_fails (dict_get data ''amount'') \<longrightarrow>
                a = Fin 0
                \<and> check_of r ''total_amount'' =
                    Some [(''pass'', CBool False),
                          (''details'', CStr (Lit ''Invalid amount value''))]
                \<and> \<not> passed r)
           \<and> (coercion_fails (dict_get data ''tax'') \<longrightarrow>
                t = Fin 0
                \<and> check_of r ''tax_rate'' =
                    Some [(''pass'', CBool True), (''details'', CStr (Lit ''No tax applied''))])"
proof -
  have za: "coercion_fails (dict_get data ''amount'') \<Longrightarrow> a = Fin 0"
    using assms(3) coercion_fails_zero by blast
  have zt: "coercion_fails (dict_get data ''tax'') \<Longrightarrow> t = Fin 0"
    using assms(4) coercion_fails_zero by blast
  show ?thesis
    using za zt
    by (auto simp: validate_receipt_present [OF assms(1)] assms(2,3,4) check_names_def
        check_of_def total_entry_def tax_entry_def check_pass_def)
qed

theorem coercion_failure_is_zero_witness:
  "all_present (receipt (PStr ''B1'') (PStr ''Shop'') (PStr ''2024-01-15'') (PStr ''abc'')
                  (PStr ''abc''))
   \<and> coercion_fails (PStr ''abc'')
   \<and> check_in
        (validate_receipt never_exists
           (receipt (PStr ''B1'') (PStr ''Shop'') (PStr ''2024-01-15'') (PStr ''abc'')
              (PStr ''abc''))
           False)
        ''total_amount'' =
      Some [(''pass'', CBool False), (''details'', CStr (Lit ''Invalid amount value''))]
   \<and> check_in
        (validate_receipt never_exists
           (receipt (PStr ''B1'') (PStr ''Shop'') (PStr ''2024-01-15'') (PStr ''abc'')
              (PStr ''abc''))
           False)
        ''tax_rate'' =
      Some [(''pass'', CBool True), (''details'', CStr (Lit ''No tax applied''))]"
proof -
  let ?d = "receipt (PStr ''B1'') (PStr ''Shop'') (PStr ''2024-01-15'') (PStr ''abc'')
              (PStr ''abc'')"
  have p: "all_present ?d"
    by (simp add: all_present_receipt)
  have s: "py_str (dict_get ?d ''date'') = Inr ''2024-01-15''"
    by (simp add: dict_get_receipt)
  have a: "coerce_float (dict_get ?d ''amount'') = Inr (Fin 0)"
    by (simp add: dict_get_receipt coerce_float_abc)
  have t: "coerce_float (dict_get ?d ''tax'') = Inr (Fin 0)"
    by (simp add: dict_get_receipt coerce_float_abc)
  have f: "coercion_fails (PStr ''abc'')"
    by (simp add: coercion_fails_def float_of_str_abc)
  show ?thesis
    using p f coercion_failure_is_zero [OF p s a t, of never_exists False]
    by (auto simp: check_in_def dict_get_receipt)
qed

theorem coerced_tax_passes_counterexample:
  "coercion_fails (PStr ''abc'')
   \<and> check_in
        (validate_receipt never_exists
           (receipt (PStr ''B1'') (PStr ''Shop'') (PStr ''2024-01-15'') (PInt 1000)
              (PStr ''abc''))
           False)
        ''tax_rate'' =
      Some [(''pass'', CBool True), (''details'', CStr (Lit ''No tax applied''))]"
proof -
  have p: "all_present
     (receipt (PStr ''B1'') (PStr ''Shop'') (PStr ''2024-01-15'') (PInt 1000) (PStr ''abc''))"
    by (simp add: all_present_receipt)
  show ?thesis
    by (simp add: coercion_fails_def float_of_str_abc check_in_def check_of_def
        validate_receipt_present [OF p] dict_get_receipt coerce_float_abc coerce_float_1000
        tax_entry_def)
qed

lemma date_entry_shape: "has_pass (date_entry s) \<and> has_details_or_missing (date_entry s)"
  by (simp add: date_entry_def has_pass_def has_details_or_missing_def split: sum.splits)

lemma total_entry_shape:
  "has_pass (total_entry a)"
  "check_pass (total_entry a) \<Longrightarrow> has_value (total_entry a)"
  "check_pass (total_entry a) \<Longrightarrow> \<not> has_details_or_missing (total_entry a)"
  "\<not> check_pass (total_entry a) \<Longrightarrow> has_details_or_missing (total_entry a)"
  by (simp_all add: total_entry_def has_pass_def has_details_or_missing_def has_value_def
      check_pass_def split: if_splits)

lemma tax_entry_shape: "has_pass (tax_entry a t) \<and> has_details_or_missing (tax_entry a t)"
proof -
  obtain valid u r where f: "find_rate t [fsub a t, a] = (valid, u, r)"
    by (cases "find_rate t [fsub a t, a]") auto
  show ?thesis
    by (simp add: tax_entry_def has_pass_def has_details_or_missing_def f
        del: find_rate.simps)
qed

lemma dup_entry_shape:
  "has_pass (dup_entry re b skip) \<and> has_details_or_missing (dup_entry re b skip)"
  by (simp add: dup_entry_def has_pass_def has_details_or_missing_def)

lemma required_entry_shape:
  "has_pass [(''pass'', CBool True), (''details'', CStr (Lit ''All required fields present''))]"
  "has_details_or_missing
     [(''pass'', CBool True), (''details'', CStr (Lit ''All required fields present''))]"
  by (simp_all add: has_pass_def has_details_or_missing_def)

text \<open>
  C5 (as amended). Every check of a report is one of the five named checks and has a
  boolean \<open>pass\<close>. It has a \<open>details\<close> message or a \<open>missing\<close> list of names, except the
  \<open>total_amount\<close> check when it passes: that one has a \<open>value\<close> text and neither \<open>details\<close>
  nor \<open>missing\<close>.
\<close>

theorem check_result_shape:
  assumes "validate_receipt receipt_exists data skip_duplicate = Inr r"
    and "(n, c) \<in> set (checks r)"
  shows "n \<in> set check_names \<and> has_pass c
         \<and> (if n = ''total_amount'' \<and> check_pass c
             then has_value c \<and> \<not> has_details_or_missing c
             else has_details_or_missing c)"
proof (cases "all_present data")
  case True
  from True assms(1) obtain s a t where
    c: "checks r =
       [(''required_fields'',
         [(''pass'', CBool True), (''details'', CStr (Lit ''All required fields present''))]),
        (''date_format'', date_entry s),
        (''total_amount'', total_entry a),
        (''tax_rate'', tax_entry a t),
        (''is_duplicate'', dup_entry receipt_exists (dict_get data ''bill_id'') skip_duplicate)]"
    by (rule check_of_present)
  have "\<forall>x \<in> set (checks r).
          fst x \<in> set check_names \<and> has_pass (snd x)
          \<and> (if fst x = ''total_amount'' \<and> check_pass (snd x)
              then has_value (snd x) \<and> \<not> has_details_or_missing (snd x)
              else has_details_or_missing (snd x))"
    by (simp add: c check_names_def date_entry_shape total_entry_shape tax_entry_shape
        dup_entry_shape required_entry_shape)
  with assms(2) show ?thesis
    by fastforce
next
  case False
  with assms show ?thesis
    by (auto simp: validate_receipt_missing check_names_def has_pass_def
        has_details_or_missing_def)
qed

theorem check_result_shape_witness:
  "validate_receipt never_exists
     (receipt (PStr ''B1'') (PStr ''Shop'') (PStr ''2024-01-15'') (PInt 1000) (PInt 0)) False =
   Inr \<lparr>passed = True,
        checks =
          [(''required_fields'',
            [(''pass'', CBool True), (''details'', CStr (Lit ''All required fields present''))]),
           (''date_format'',
            [(''pass'', CBool True), (''details'', CStr (Lit ''Valid date: 2024-01-15''))]),
           (''total_amount'', [(''pass'', CBool True), (''value'', CStr (Rupees (Fin 1000)))]),
           (''tax_rate'', [(''pass'', CBool True), (''details'', CStr (Lit ''No tax applied''))]),
           (''is_duplicate'',
            [(''pass'', CBool True), (''details'', CStr (Lit ''No duplicate found''))])]\<rparr>
   \<and> has_pass [(''pass'', CBool True), (''value'', CStr (Rupees (Fin 1000)))]
   \<and> has_value [(''pass'', CBool True), (''value'', CStr (Rupees (Fin 1000)))]
   \<and> \<not> has_details_or_missing [(''pass'', CBool True), (''value'', CStr (Rupees (Fin 1000)))]"
proof -
  let ?r = "\<lparr>passed = True,
        checks =
          [(''required_fields'',
            [(''pass'', CBool True), (''details'', CStr (Lit ''All required fields present''))]),
           (''date_format'',
            [(''pass'', CBool True), (''details'', CStr (Lit ''Valid date: 2024-01-15''))]),
           (''total_amount'', [(''pass'', CBool True), (''value'', CStr (Rupees (Fin 1000)))]),
           (''tax_rate'', [(''pass'', CBool True), (''details'', CStr (Lit ''No tax applied''))]),
           (''is_duplicate'',
            [(''pass'', CBool True), (''details'', CStr (Lit ''No duplicate found''))])]\<rparr>"
  have h: "validate_receipt never_exists
     (receipt (PStr ''B1'') (PStr ''Shop'') (PStr ''2024-01-15'') (PInt 1000) (PInt 0)) False =
     Inr ?r"
    by (simp add: sample_report dup_entry_def never_exists_def check_pass_def)
  have m: "(''total_amount'', [(''pass'', CBool True), (''value'', CStr (Rupees (Fin 1000)))])
             \<in> set (checks ?r)"
    by simp
  have "check_pass [(''pass'', CBool True), (''value'', CStr (Rupees (Fin 1000)))]"
    by (simp add: check_pass_def)
  then show ?thesis
    using h check_result_shape [OF h m] by simp
qed

theorem value_instead_of_details_counterexample:
  "check_in
     (validate_receipt never_exists
        (receipt (PStr ''B1'') (PStr ''Shop'') (PStr ''2024-01-15'') (PInt 1000) (PInt 0)) False)
     ''total_amount'' =
   Some [(''pass'', CBool True), (''value'', CStr (Rupees (Fin 1000)))]
   \<and> \<not> has_details_or_missing [(''pass'', CBool True), (''value'', CStr (Rupees (Fin 1000)))]"
  by (simp add: check_in_def sample_report check_of_def has_details_or_missing_def)

lemma coerce_float_80: "coerce_float (PInt 80) = Inr (Fin 80)"
  by (simp add: coerce_float_def round_eval)

lemma EXPECTED_TAX_RATE_value: "EXPECTED_TAX_RATE = Fin (5764607523034235 / 2 ^ 56)"
  by (simp add: EXPECTED_TAX_RATE_def round_eval)

lemma TOLERANCE_value: "TOLERANCE = Fin (7205759403792794 / 2 ^ 57)"
  by (simp add: TOLERANCE_def round_eval)

lemma fsub_1000_80: "fsub (Fin 1000) (Fin 80) = Fin 920"
  by (simp add: round_eval)

lemma fdiv_80_920: "fdiv (Fin 80) (Fin 920) = Inr (Fin (1566469435607129 / 2 ^ 54))"
  by (simp add: round_eval)

lemma within_tolerance_80_920: "within_tolerance (Fin (1566469435607129 / 2 ^ 54))"
  by (simp add: within_tolerance_def EXPECTED_TAX_RATE_value TOLERANCE_value round_eval)
lemma coerce_float_100: "coerce_float (PInt 100) = Inr (Fin 100)"
  by (simp add: coerce_float_def round_eval)

lemma coerce_float_12: "coerce_float (PInt 12) = Inr (Fin 12)"
  by (simp add: coerce_float_def round_eval)

lemma fsub_100_12: "fsub (Fin 100) (Fin 12) = Fin 88"
  by (simp add: round_eval)

lemma fdiv_12_88: "fdiv (Fin 12) (Fin 88) = Inr (Fin (1228254443828317 / 2 ^ 53))"
  by (simp add: round_eval)

lemma fdiv_12_100: "fdiv (Fin 12) (Fin 100) = Inr (Fin (1080863910568919 / 2 ^ 53))"
  by (simp add: round_eval)

lemma not_within_tolerance_12_88: "\<not> within_tolerance (Fin (1228254443828317 / 2 ^ 53))"
  by (simp add: within_tolerance_def EXPECTED_TAX_RATE_value TOLERANCE_value round_eval)

lemma within_tolerance_12_100: "within_tolerance (Fin (1080863910568919 / 2 ^ 53))"
  by (simp add: within_tolerance_def EXPECTED_TAX_RATE_value TOLERANCE_value round_eval)

lemma qualifies_Some:
  "qualifies t c \<longleftrightarrow> (\<exists>rate. candidate_rate t c = Some rate \<and> within_tolerance rate)"
  by (simp add: qualifies_def split: option.splits)

lemma find_rate_two:
  "find_rate t [c1, c2] =
     (if qualifies t c1 then (True, c1, the (candidate_rate t c1))
      else if qualifies t c2 then (True, c2, the (candidate_rate t c2))
      else (False, Fin 0, Fin 0))"
  by (simp add: qualifies_def candidate_rate_def within_tolerance_def split: sum.splits)

lemma tax_entry_cases:
  "tax_entry a t =
     (if feq t (Fin 0) then
        [(''pass'', CBool True), (''details'', CStr (Lit ''No tax applied''))]
      else if qualifies t (fsub a t) then
        [(''pass'', CBool True),
         (''details'',
          CStr (TaxRateOK (fmul (the (candidate_rate t (fsub a t))) (Fin 100)) (fsub a t)))]
      else if qualifies t a then
        [(''pass'', CBool True),
         (''details'', CStr (TaxRateOK (fmul (the (candidate_rate t a)) (Fin 100)) a))]
      else
        [(''pass'', CBool False),
         (''details'', CStr (TaxMismatch (fmul EXPECTED_TAX_RATE (Fin 100)) t a))])"
  by (simp add: tax_entry_def find_rate_two del: find_rate.simps)

text \<open>
  C2 (as amended). For a record with all required fields, with \<open>a\<close> and \<open>t\<close> the coerced
  amount and tax, the \<open>tax_rate\<close> check of the report returned is: when \<open>t == 0.0\<close>, a pass
  with details \<^verbatim>\<open>No tax applied\<close>; otherwise a pass recording the first candidate
  subtotal, in the order \<open>a - t\<close>, \<open>a\<close>, that is not \<open>\<le> 0\<close> and whose rate \<open>t / candidate\<close>
  satisfies \<^verbatim>\<open>abs(rate - 0.08) <= 0.05\<close> in float arithmetic, with that candidate and
  \<open>rate * 100\<close> in the details; and a failure, with \<open>passed\<close> false, when neither
  candidate qualifies.
\<close>

theorem tax_rate_rule:
  assumes "all_present data"
    and "validate_receipt receipt_exists data skip_duplicate = Inr r"
    and "coerce_float (dict_get data ''amount'') = Inr a"
    and "coerce_float (dict_get data ''tax'') = Inr t"
  shows "(feq t (Fin 0) \<longrightarrow>
            check_of r ''tax_rate'' =
              Some [(''pass'', CBool True), (''details'', CStr (Lit ''No tax applied''))])
         \<and> (\<not> feq t (Fin 0) \<and> qualifies t (fsub a t) \<longrightarrow>
              (\<exists>rate. candidate_rate t (fsub a t) = Some rate \<and> within_tolerance rate
                 \<and> check_of r ''tax_rate'' =
                     Some [(''pass'', CBool True),
                           (''details'',
                            CStr (TaxRateOK (fmul rate (Fin 100)) (fsub a t)))]))
         \<and> (\<not> feq t (Fin 0) \<and> \<not> qualifies t (fsub a t) \<and> qualifies t a \<longrightarrow>
              (\<exists>rate. candidate_rate t a = Some rate \<and> within_tolerance rate
                 \<and> check_of r ''tax_rate'' =
                     Some [(''pass'', CBool True),
                           (''details'', CStr (TaxRateOK (fmul rate (Fin 100)) a))]))
         \<and> (\<not> feq t (Fin 0) \<and> \<not> qualifies t (fsub a t) \<and> \<not> qualifies t a \<longrightarrow>
              check_of r ''tax_rate'' =
                Some [(''pass'', CBool False),
                      (''details'',
                       CStr (TaxMismatch (fmul EXPECTED_TAX_RATE (Fin 100)) t a))]
              \<and> \<not> passed r)"
proof -
  from assms(1,2) obtain s a' t' where
    a': "coerce_float (dict_get data ''amount'') = Inr a'"
    and t': "coerce_float (dict_get data ''tax'') = Inr t'"
    and c: "checks r =
       [(''required_fields'',
         [(''pass'', CBool True), (''details'', CStr (Lit ''All required fields present''))]),
        (''date_format'', date_entry s),
        (''total_amount'', total_entry a'),
        (''tax_rate'', tax_entry a' t'),
        (''is_duplicate'', dup_entry receipt_exists (dict_get data ''bill_id'') skip_duplicate)]"
    and p: "passed r =
       (check_pass (date_entry s) \<and> check_pass (total_entry a') \<and> check_pass (tax_entry a' t')
        \<and> check_pass (dup_entry receipt_exists (dict_get data ''bill_id'') skip_duplicate))"
    by (rule check_of_present)
  from a' t' assms(3,4) have e: "a' = a" "t' = t" by simp_all
  have k: "check_of r ''tax_rate'' = Some (tax_entry a t)"
    by (simp add: check_of_def c e)
  have f: "\<not> feq t (Fin 0) \<Longrightarrow> \<not> qualifies t (fsub a t) \<Longrightarrow> \<not> qualifies t a
           \<Longrightarrow> \<not> passed r"
    by (simp add: p e tax_entry_cases check_pass_def)
  show ?thesis
    using f by (auto simp: k tax_entry_cases qualifies_Some)
qed

theorem tax_rate_rule_witness:
  "all_present (receipt (PStr ''B1'') (PStr ''Shop'') (PStr ''2024-01-15'') (PInt 1000) (PInt 80))
   \<and> qualifies (Fin 80) (fsub (Fin 1000) (Fin 80))
   \<and> check_in
        (validate_receipt never_exists
           (receipt (PStr ''B1'') (PStr ''Shop'') (PStr ''2024-01-15'') (PInt 1000) (PInt 80))
           False)
        ''tax_rate'' =
      Some [(''pass'', CBool True),
            (''details'', CStr (TaxRateOK (Fin (2447608493136139 / 2 ^ 48)) (Fin 920)))]
   \<and> \<not> qualifies (Fin 12) (fsub (Fin 100) (Fin 12))
   \<and> qualifies (Fin 12) (Fin 100)
   \<and> check_in
        (validate_receipt never_exists
           (receipt (PStr ''B1'') (PStr ''Shop'') (PStr ''2024-01-15'') (PInt 100) (PInt 12))
           False)
        ''tax_rate'' =
      Some [(''pass'', CBool True), (''details'', CStr (TaxRateOK (Fin 12) (Fin 100)))]"
proof -
  let ?d1 = "receipt (PStr ''B1'') (PStr ''Shop'') (PStr ''2024-01-15'') (PInt 1000) (PInt 80)"
  let ?d2 = "receipt (PStr ''B1'') (PStr ''Shop'') (PStr ''2024-01-15'') (PInt 100) (PInt 12)"
  have p1: "all_present ?d1" and p2: "all_present ?d2"
    by (simp_all add: all_present_receipt)
  obtain r1 where h1: "validate_receipt never_exists ?d1 False = Inr r1"
    by (simp add: validate_receipt_present [OF p1] dict_get_receipt coerce_float_1000
        coerce_float_80)
  obtain r2 where h2: "validate_receipt never_exists ?d2 False = Inr r2"
    by (simp add: validate_receipt_present [OF p2] dict_get_receipt coerce_float_100
        coerce_float_12)
  have a1: "coerce_float (dict_get ?d1 ''amount'') = Inr (Fin 1000)"
    and t1: "coerce_float (dict_get ?d1 ''tax'') = Inr (Fin 80)"
    and a2: "coerce_float (dict_get ?d2 ''amount'') = Inr (Fin 100)"
    and t2: "coerce_float (dict_get ?d2 ''tax'') = Inr (Fin 12)"
    by (simp_all add: dict_get_receipt coerce_float_1000 coerce_float_80 coerce_float_100
        coerce_float_12)
  have c1: "candidate_rate (Fin 80) (Fin 920) = Some (Fin (1566469435607129 / 2 ^ 54))"
    by (simp add: candidate_rate_def fdiv_80_920 del: fdiv.simps)
  have c2: "candidate_rate (Fin 12) (Fin 88) = Some (Fin (1228254443828317 / 2 ^ 53))"
    by (simp add: candidate_rate_def fdiv_12_88 del: fdiv.simps)
  have c3: "candidate_rate (Fin 12) (Fin 100) = Some (Fin (1080863910568919 / 2 ^ 53))"
    by (simp add: candidate_rate_def fdiv_12_100 del: fdiv.simps)
  have q1: "qualifies (Fin 80) (fsub (Fin 1000) (Fin 80))"
    by (simp only: fsub_1000_80 qualifies_def c1 option.case within_tolerance_80_920)
  have q2: "\<not> qualifies (Fin 12) (fsub (Fin 100) (Fin 12))"
    by (simp only: fsub_100_12 qualifies_def c2 option.case not_within_tolerance_12_88
        not_False_eq_True)
  have q3: "qualifies (Fin 12) (Fin 100)"
    by (simp only: qualifies_def c3 option.case within_tolerance_12_100)
  have n1: "\<not> feq (Fin 80) (Fin 0)" and n2: "\<not> feq (Fin 12) (Fin 0)"
    by simp_all
  from tax_rate_rule [OF p1 h1 a1 t1] n1 q1
  have e1: "check_of r1 ''tax_rate'' =
      Some [(''pass'', CBool True),
            (''details'', CStr (TaxRateOK (Fin (2447608493136139 / 2 ^ 48)) (Fin 920)))]"
    by (simp only: fsub_1000_80 c1) (simp add: round_eval)
  from tax_rate_rule [OF p2 h2 a2 t2] n2 q2 q3
  have e2: "check_of r2 ''tax_rate'' =
      Some [(''pass'', CBool True), (''details'', CStr (TaxRateOK (Fin 12) (Fin 100)))]"
    by (simp only: fsub_100_12 c3) (simp add: round_eval)
  show ?thesis
    using p1 q1 q2 q3 e1 e2 by (simp only: check_in_def h1 h2 sum.case) simp
qed

theorem no_tax_lower_case_counterexample:
  "check_in
     (validate_receipt never_exists
        (receipt (PStr ''B1'') (PStr ''Shop'') (PStr ''2024-01-15'') (PInt 1000) (PInt 0)) False)
     ''tax_rate'' =
   Some [(''pass'', CBool True), (''details'', CStr (Lit ''No tax applied''))]
   \<and> check_in
     (validate_receipt never_exists
        (receipt (PStr ''B1'') (PStr ''Shop'') (PStr ''2024-01-15'') (PInt 1000) (PInt 0)) False)
     ''tax_rate'' \<noteq>
   Some [(''pass'', CBool True), (''details'', CStr (Lit ''no tax applied''))]"
  by (simp add: check_in_def sample_report check_of_def)

lemma split_on_not_Nil: "split_on c s \<noteq> []"
  by (induction s) (auto split: list.splits)

lemma split_on_no_sep: "c \<notin> set p \<Longrightarrow> split_on c p = [p]"
  by (induction p) auto

lemma split_on_sep: "c \<notin> set p \<Longrightarrow> split_on c (p @ c # rest) = p # split_on c rest"
  by (induction p) auto

lemma split_on_single: "split_on c s = [p] \<Longrightarrow> s = p \<and> c \<notin> set p"
  by (induction s arbitrary: p) (auto split: if_splits list.splits simp: split_on_not_Nil)

lemma split_on_Cons:
  "split_on c s = p # q # qs \<Longrightarrow>
     \<exists>rest. s = p @ c # rest \<and> c \<notin> set p \<and> split_on c rest = q # qs"
proof (induction s arbitrary: p)
  case Nil
  then show ?case by simp
next
  case (Cons x xs)
  show ?case
  proof (cases "x = c")
    case True
    with Cons.prems show ?thesis by auto
  next
    case False
    with Cons.prems obtain p' where p: "p = x # p'" "split_on c xs = p' # q # qs"
      by (auto split: list.splits)
    from Cons.IH [OF p(2)] obtain rest where
      "xs = p' @ c # rest" "c \<notin> set p'" "split_on c rest = q # qs"
      by blast
    with p False show ?thesis by auto
  qed
qed

lemma split_on_three:
  "split_on c s = [y, m, d] \<longleftrightarrow>
     s = y @ c # m @ c # d \<and> c \<notin> set y \<and> c \<notin> set m \<and> c \<notin> set d"
proof
  assume a: "split_on c s = [y, m, d]"
  from split_on_Cons [OF a] obtain r1 where
    r1: "s = y @ c # r1" "c \<notin> set y" "split_on c r1 = [m, d]"
    by blast
  from split_on_Cons [OF r1(3)] obtain r2 where
    r2: "r1 = m @ c # r2" "c \<notin> set m" "split_on c r2 = [d]"
    by blast
  from split_on_single [OF r2(3)] r1 r2
  show "s = y @ c # m @ c # d \<and> c \<notin> set y \<and> c \<notin> set m \<and> c \<notin> set d"
    by simp
next
  assume "s = y @ c # m @ c # d \<and> c \<notin> set y \<and> c \<notin> set m \<and> c \<notin> set d"
  then show "split_on c s = [y, m, d]"
    by (simp add: split_on_sep split_on_no_sep)
qed

lemma re_m_dash_texts:
  "m \<in> set month_texts \<Longrightarrow> re_m_dash (m @ CHR ''-'' # r4) = [(m, r4)]"
  by (auto simp: month_texts_def one_digit_texts_def padded_texts_def re_m_dash_def re_m_def re_dash_def two_chars_def one_char_def)

lemma re_m_dash_cases:
  "re_m_dash r2 = [] \<or>
   (\<exists>m r4. re_m_dash r2 = [(m, r4)] \<and> m \<in> set month_texts \<and> r2 = m @ CHR ''-'' # r4)"
proof (cases r2)
  case Nil
  then show ?thesis
    by (simp add: re_m_dash_def re_m_def two_chars_def one_char_def)
next
  case (Cons c1 t1)
  show ?thesis
  proof (cases t1)
    case Nil
    with Cons show ?thesis
      by (simp add: re_m_dash_def re_m_def two_chars_def one_char_def re_dash_def)
  next
    case (Cons c2 t2)
    show ?thesis
    proof (cases t2)
      case Nil
      with Cons \<open>r2 = c1 # t1\<close> show ?thesis
        by (auto simp: re_m_dash_def re_m_def two_chars_def one_char_def re_dash_def
            month_texts_def one_digit_texts_def padded_texts_def)
    next
      case (Cons c3 t3)
      with \<open>t1 = c2 # t2\<close> \<open>r2 = c1 # t1\<close> show ?thesis
        by (auto simp: re_m_dash_def re_m_def two_chars_def one_char_def re_dash_def
            month_texts_def one_digit_texts_def padded_texts_def)
    qed
  qed
qed
lemma day_first_texts: "d \<in> set day_texts \<Longrightarrow> day_first d = Some (d, [])"
  by (auto simp: day_texts_def one_digit_texts_def padded_texts_def day_first_def re_d_def two_chars_def one_char_def is_digit_def)

lemma day_first_two:
  "day_first (c1 # c2 # t) =
     (if c1 = CHR ''3'' \<and> c2 \<in> set ''01'' then Some ([c1, c2], t)
      else if c1 \<in> set ''12'' \<and> is_digit c2 then Some ([c1, c2], t)
      else if c1 = CHR ''0'' \<and> c2 \<in> set ''123456789'' then Some ([c1, c2], t)
      else if c1 \<in> set ''123456789'' then Some ([c1], c2 # t)
      else if c1 = CHR '' '' \<and> c2 \<in> set ''123456789'' then Some ([c1, c2], t)
      else None)"
  by (simp add: day_first_def re_d_def two_chars_def one_char_def del: list.set)

lemma day_first_two_full:
  "day_first (c1 # c2 # t) = Some (d, []) \<Longrightarrow>
     t = [] \<and> d = [c1, c2]
     \<and> ((c1 = CHR ''3'' \<and> c2 \<in> set ''01'') \<or> (c1 \<in> set ''12'' \<and> is_digit c2)
        \<or> (c1 = CHR ''0'' \<and> c2 \<in> set ''123456789'')
        \<or> (c1 = CHR '' '' \<and> c2 \<in> set ''123456789''))"
  by (simp add: day_first_two del: list.set split: if_splits)

lemma day_texts_two:
  "c1 = CHR ''3'' \<and> c2 \<in> set ''01'' \<Longrightarrow> [c1, c2] \<in> set day_texts"
  "c1 \<in> set ''12'' \<and> is_digit c2 \<Longrightarrow> [c1, c2] \<in> set day_texts"
  "c1 = CHR ''0'' \<and> c2 \<in> set ''123456789'' \<Longrightarrow> [c1, c2] \<in> set day_texts"
  "c1 = CHR '' '' \<and> c2 \<in> set ''123456789'' \<Longrightarrow> [c1, c2] \<in> set day_texts"
  by (auto simp: is_digit_def) (simp_all add: day_texts_def one_digit_texts_def padded_texts_def)

lemma day_first_full:
  assumes "day_first r4 = Some (d, [])"
  shows "d = r4 \<and> r4 \<in> set day_texts"
proof (cases r4)
  case Nil
  with assms show ?thesis
    by (simp add: day_first_def re_d_def two_chars_def one_char_def)
next
  case (Cons c1 t1)
  show ?thesis
  proof (cases t1)
    case Nil
    with Cons assms have "d = r4" "c1 \<in> set ''123456789''"
      by (auto simp: day_first_def re_d_def two_chars_def one_char_def split: if_splits)
    moreover from this(2) have "[c1] \<in> set day_texts"
      by auto (simp_all add: day_texts_def one_digit_texts_def padded_texts_def)
    ultimately show ?thesis
      using Nil Cons by simp
  next
    case (Cons c2 t2)
    with \<open>r4 = c1 # t1\<close> assms have "day_first (c1 # c2 # t2) = Some (d, [])"
      by simp
    from day_first_two_full [OF this] day_texts_two [of c1 c2] Cons \<open>r4 = c1 # t1\<close>
    show ?thesis
      by blast
  qed
qed
lemma strptime_ymd_short:
  "length s < 5 \<Longrightarrow> strptime_ymd s = Inl ValueError"
proof -
  assume "length s < 5"
  then have "re_Y_dash s = []"
    by (auto simp: re_Y_dash_def re_Y_def re_dash_def split: list.splits)
  then show ?thesis
    by (simp add: strptime_ymd_def)
qed

lemma strptime_ymd_long:
  "strptime_ymd (a # b # c # d # e # r2) =
     (if is_digit a \<and> is_digit b \<and> is_digit c \<and> is_digit d \<and> e = CHR ''-'' then
        (case re_m_dash r2 of
           [] \<Rightarrow> Inl ValueError
         | (m, r4) # _ \<Rightarrow>
             (case day_first r4 of
                None \<Rightarrow> Inl ValueError
              | Some (dd, r) \<Rightarrow>
                  if r \<noteq> [] then Inl ValueError
                  else if to_int [a, b, c, d] < 1
                          \<or> days_in_month (to_int [a, b, c, d]) (to_int m) < to_int dd
                  then Inl ValueError
                  else Inr (to_int [a, b, c, d], to_int m, to_int dd)))
      else Inl ValueError)"
proof -
  from re_m_dash_cases [of r2] show ?thesis
  proof
    assume "re_m_dash r2 = []"
    then show ?thesis
      by (simp add: strptime_ymd_def re_Y_dash_def re_Y_def re_dash_def)
  next
    assume "\<exists>m r4. re_m_dash r2 = [(m, r4)] \<and> m \<in> set month_texts \<and> r2 = m @ CHR ''-'' # r4"
    then obtain m r4 where m: "re_m_dash r2 = [(m, r4)]"
      by blast
    show ?thesis
    proof (cases "re_d r4")
      case Nil
      with m show ?thesis
        by (simp add: strptime_ymd_def re_Y_dash_def re_Y_def re_dash_def day_first_def)
    next
      case (Cons x xs)
      with m show ?thesis
        by (cases x)
          (simp add: strptime_ymd_def re_Y_dash_def re_Y_def re_dash_def day_first_def)
    qed
  qed
qed
lemma month_texts_no_dash: "m \<in> set month_texts \<Longrightarrow> CHR ''-'' \<notin> set m"
  by (auto simp: month_texts_def one_digit_texts_def padded_texts_def)

lemma day_texts_no_dash: "d \<in> set day_texts \<Longrightarrow> CHR ''-'' \<notin> set d"
  by (auto simp: day_texts_def one_digit_texts_def padded_texts_def)

lemma is_digit_not_dash: "is_digit a \<Longrightarrow> CHR ''-'' \<noteq> a"
  by (auto simp: is_digit_def)

lemma valid_date_text_iff:
  "valid_date_text s \<longleftrightarrow>
     (\<exists>y m d. split_on (CHR ''-'') s = [y, m, d] \<and> length y = 4 \<and> list_all is_digit y
        \<and> m \<in> set month_texts \<and> d \<in> set day_texts
        \<and> 1 \<le> to_int y \<and> to_int d \<le> days_in_month (to_int y) (to_int m))"
  by (auto simp: valid_date_text_def split: list.splits)

lemma length_four: "length y = 4 \<Longrightarrow> \<exists>a b c d. y = [a, b, c, d]"
  by (auto simp: numeral_eq_Suc length_Suc_conv)

lemma strptime_ymd_valid_date:
  assumes "strptime_ymd s = Inr v"
  shows "valid_date_text s"
proof -
  from assms have "\<not> length s < 5"
    using strptime_ymd_short [of s] by auto
  then obtain a b c d e r2 where s: "s = a # b # c # d # e # r2"
    by (cases s; simp; rename_tac t; case_tac t; simp; rename_tac t; case_tac t; simp;
        rename_tac t; case_tac t; simp; rename_tac t; case_tac t; simp)
  from assms s have dg: "is_digit a" "is_digit b" "is_digit c" "is_digit d" "e = CHR ''-''"
    by (auto simp: strptime_ymd_long split: if_splits)
  from assms s dg have ne: "re_m_dash r2 \<noteq> []"
    by (auto simp: strptime_ymd_long)
  with re_m_dash_cases [of r2] obtain m r4 where
    m: "re_m_dash r2 = [(m, r4)]" "m \<in> set month_texts" "r2 = m @ CHR ''-'' # r4"
    by blast
  from assms s dg m(1) obtain dd where
    d: "day_first r4 = Some (dd, [])"
       "1 \<le> to_int [a, b, c, d]"
       "to_int dd \<le> days_in_month (to_int [a, b, c, d]) (to_int m)"
    by (auto simp: strptime_ymd_long split: option.splits if_splits)
  from day_first_full [OF d(1)] have r4: "dd = r4" "r4 \<in> set day_texts"
    by simp_all
  have "split_on (CHR ''-'') ([a, b, c, d] @ CHR ''-'' # m @ CHR ''-'' # r4) =
          [[a, b, c, d], m, r4]"
    by (rule iffD2 [OF split_on_three])
      (use dg m(2) r4(2) in
        \<open>simp add: month_texts_no_dash day_texts_no_dash is_digit_not_dash\<close>)
  with s dg m(3) have "split_on (CHR ''-'') s = [[a, b, c, d], m, r4]"
    by simp
  with dg m(2) r4 d(2,3) show ?thesis
    by (auto simp: valid_date_text_iff)
qed

lemma valid_date_strptime_ymd:
  assumes "valid_date_text s"
  shows "\<exists>v. strptime_ymd s = Inr v"
proof -
  from assms obtain y m d where
    v: "split_on (CHR ''-'') s = [y, m, d]" "length y = 4" "list_all is_digit y"
       "m \<in> set month_texts" "d \<in> set day_texts"
       "1 \<le> to_int y" "to_int d \<le> days_in_month (to_int y) (to_int m)"
    by (auto simp: valid_date_text_iff)
  from v(2) obtain a b c e where y: "y = [a, b, c, e]"
    using length_four by blast
  from v(1) have s: "s = y @ CHR ''-'' # m @ CHR ''-'' # d"
    by (simp add: split_on_three)
  have "strptime_ymd s = Inr (to_int y, to_int m, to_int d)"
    using v(3,6,7) re_m_dash_texts [OF v(4), of d] day_first_texts [OF v(5)]
    by (simp add: s y strptime_ymd_long)
  then show ?thesis ..
qed

lemma strptime_ymd_iff_valid: "(\<exists>v. strptime_ymd s = Inr v) \<longleftrightarrow> valid_date_text s"
  using strptime_ymd_valid_date valid_date_strptime_ymd by blast
lemmas date_text_eval =
  valid_date_text_def month_texts_def day_texts_def one_digit_texts_def padded_texts_def
  to_int_def parse_digits_def digit_val_def is_digit_def is_leap_def days_in_month_def

lemma valid_date_text_samples:
  "valid_date_text ''2024-01-15''"
  "valid_date_text ''2024-1-5''"
  "\<not> valid_date_text ''15-01-2024''"
  "\<not> valid_date_text ''2024/01/15''"
  by (simp_all add: date_text_eval)

lemma date_entry_valid:
  "date_entry s =
     (if valid_date_text s
      then [(''pass'', CBool True), (''details'', CStr (Lit (''Valid date: '' @ s)))]
      else [(''pass'', CBool False), (''details'', CStr (Lit (''Invalid date format: '' @ s)))])"
  using strptime_ymd_iff_valid [of s] by (auto simp: date_entry_def split: sum.splits)

lemma sample_date_report:
  "validate_receipt re
     (receipt (PStr ''B1'') (PStr ''Shop'') (PStr s) (PInt 1000) (PInt 0)) skip =
   Inr \<lparr>passed = (check_pass (date_entry s) \<and> check_pass (dup_entry re (PStr ''B1'') skip)),
        checks =
          [(''required_fields'',
            [(''pass'', CBool True), (''details'', CStr (Lit ''All required fields present''))]),
           (''date_format'', date_entry s),
           (''total_amount'', [(''pass'', CBool True), (''value'', CStr (Rupees (Fin 1000)))]),
           (''tax_rate'', [(''pass'', CBool True), (''details'', CStr (Lit ''No tax applied''))]),
           (''is_duplicate'', dup_entry re (PStr ''B1'') skip)]\<rparr>"
proof -
  have p: "all_present (receipt (PStr ''B1'') (PStr ''Shop'') (PStr s) (PInt 1000) (PInt 0))"
    by (simp add: all_present_receipt)
  show ?thesis
    by (simp add: validate_receipt_present [OF p] dict_get_receipt coerce_float_0
        coerce_float_1000 total_entry_def tax_entry_def check_pass_def)
qed

text \<open>
  C4 (as amended). For a record with all required fields, with \<open>s\<close> the text of the
  date, the \<open>date_format\<close> check of the report returned passes exactly when \<open>s\<close> is four
  digits giving a year of at least 1, \<^verbatim>\<open>-\<close>, a month from 1 to 12 written with one or
  two digits, \<^verbatim>\<open>-\<close>, and a day written with one or two digits (or a space and a digit)
  that this month of this year has, and nothing else. A failure records the text in the
  details and does not stop the validation: the report has all five checks.
\<close>

theorem date_format_rule:
  assumes "all_present data"
    and "validate_receipt receipt_exists data skip_duplicate = Inr r"
    and "py_str (dict_get data ''date'') = Inr s"
  shows "check_of r ''date_format'' =
           Some (if valid_date_text s
                 then [(''pass'', CBool True), (''details'', CStr (Lit (''Valid date: '' @ s)))]
                 else [(''pass'', CBool False),
                       (''details'', CStr (Lit (''Invalid date format: '' @ s)))])
         \<and> map fst (checks r) = check_names"
proof -
  from assms(1,2) obtain s' a t where
    s': "py_str (dict_get data ''date'') = Inr s'"
    and c: "checks r =
       [(''required_fields'',
         [(''pass'', CBool True), (''details'', CStr (Lit ''All required fields present''))]),
        (''date_format'', date_entry s'),
        (''total_amount'', total_entry a),
        (''tax_rate'', tax_entry a t),
        (''is_duplicate'', dup_entry receipt_exists (dict_get data ''bill_id'') skip_duplicate)]"
    by (rule check_of_present)
  from s' assms(3) have "s' = s" by simp
  with c show ?thesis
    by (simp add: check_of_def check_names_def date_entry_valid)
qed

theorem date_format_rule_witness:
  "all_present (receipt (PStr ''B1'') (PStr ''Shop'') (PStr ''2024-01-15'') (PInt 1000) (PInt 0))
   \<and> valid_date_text ''2024-01-15''
   \<and> check_in
        (validate_receipt never_exists
           (receipt (PStr ''B1'') (PStr ''Shop'') (PStr ''2024-01-15'') (PInt 1000) (PInt 0))
           False)
        ''date_format'' =
      Some [(''pass'', CBool True), (''details'', CStr (Lit ''Valid date: 2024-01-15''))]
   \<and> \<not> valid_date_text ''15-01-2024''
   \<and> check_in
        (validate_receipt never_exists
           (receipt (PStr ''B1'') (PStr ''Shop'') (PStr ''15-01-2024'') (PInt 1000) (PInt 0))
           False)
        ''date_format'' =
      Some [(''pass'', CBool False),
            (''details'', CStr (Lit ''Invalid date format: 15-01-2024''))]
   \<and> \<not> valid_date_text ''2024/01/15''
   \<and> check_in
        (validate_receipt never_exists
           (receipt (PStr ''B1'') (PStr ''Shop'') (PStr ''2024/01/15'') (PInt 1000) (PInt 0))
           False)
        ''date_format'' =
      Some [(''pass'', CBool False),
            (''details'', CStr (Lit ''Invalid date format: 2024/01/15''))]"
proof -
  let ?d1 = "receipt (PStr ''B1'') (PStr ''Shop'') (PStr ''2024-01-15'') (PInt 1000) (PInt 0)"
  let ?d2 = "receipt (PStr ''B1'') (PStr ''Shop'') (PStr ''15-01-2024'') (PInt 1000) (PInt 0)"
  let ?d3 = "receipt (PStr ''B1'') (PStr ''Shop'') (PStr ''2024/01/15'') (PInt 1000) (PInt 0)"
  have p: "all_present ?d1" "all_present ?d2" "all_present ?d3"
    by (simp_all add: all_present_receipt)
  obtain r1 where h1: "validate_receipt never_exists ?d1 False = Inr r1"
    by (simp add: sample_date_report)
  obtain r2 where h2: "validate_receipt never_exists ?d2 False = Inr r2"
    by (simp add: sample_date_report)
  obtain r3 where h3: "validate_receipt never_exists ?d3 False = Inr r3"
    by (simp add: sample_date_report)
  have s: "py_str (dict_get ?d1 ''date'') = Inr ''2024-01-15''"
    "py_str (dict_get ?d2 ''date'') = Inr ''15-01-2024''"
    "py_str (dict_get ?d3 ''date'') = Inr ''2024/01/15''"
    by (simp_all add: dict_get_receipt)
  show ?thesis
    using p(1) valid_date_text_samples
      date_format_rule [OF p(1) h1 s(1)] date_format_rule [OF p(2) h2 s(2)]
      date_format_rule [OF p(3) h3 s(3)]
    by (simp add: check_in_def h1 h2 h3)
qed

theorem one_digit_month_passes_counterexample:
  "check_in
     (validate_receipt never_exists
        (receipt (PStr ''B1'') (PStr ''Shop'') (PStr ''2024-1-5'') (PInt 1000) (PInt 0)) False)
     ''date_format'' =
   Some [(''pass'', CBool True), (''details'', CStr (Lit ''Valid date: 2024-1-5''))]"
  by (simp add: check_in_def sample_date_report check_of_def date_entry_valid
      valid_date_text_samples)

end
